theory Spec2Isabelle
  imports Main "HOL-Library.AList" "HOL-Library.Extended_Nat"
begin

section \<open>Data model\<close>

text \<open>
  A JavaScript object used as a dictionary (\<open>Hash<T>\<close> of \<open>types.ts\<close>) is an
  association list of its own properties in insertion order. The assignment
  \<open>h[k] = v\<close> is \<open>AList.update\<close> (an existing key keeps its position, a new key goes
  last) and \<open>Object.keys\<close> is \<open>map fst\<close>.

  The dictionaries of selections are made by object literals (\<open>{}\<close>), so they inherit
  the members of \<open>Object.prototype\<close>. A read \<open>h[k]\<close> and the operator \<open>k in h\<close> follow
  the prototype chain: \<open>hash_lookup\<close> tells whether \<open>k\<close> is an own property, an inherited
  member or absent, and \<open>hash_in\<close> is \<open>k in h\<close>. Every inherited member is truthy (a
  function, or the prototype object for \<open>__proto__\<close>). \<open>hash_get\<close> reads own properties
  only: it is \<open>h[k]\<close> for the objects without a prototype (\<open>info.fragments\<close>, made with
  \<open>Object.create(null)\<close>) and for reads guarded by \<open>hasOwnProperty\<close>.
\<close>

type_synonym 'a Hash = "(string \<times> 'a) list"

definition object_prototype_names :: "string list" where
  "object_prototype_names =
     [''constructor'', ''__defineGetter__'', ''__defineSetter__'', ''hasOwnProperty'',
      ''__lookupGetter__'', ''__lookupSetter__'', ''isPrototypeOf'', ''propertyIsEnumerable'',
      ''toString'', ''valueOf'', ''__proto__'', ''toLocaleString'']"

datatype 'a property = Own 'a | Inherited | Absent

definition hash_lookup :: "'a Hash \<Rightarrow> string \<Rightarrow> 'a property" where
  "hash_lookup h k =
     (case map_of h k of
        Some v \<Rightarrow> Own v
      | None \<Rightarrow> if k \<in> set object_prototype_names then Inherited else Absent)"

definition hash_get :: "'a Hash \<Rightarrow> string \<Rightarrow> 'a option" where
  "hash_get h k = map_of h k"

definition hash_in :: "string \<Rightarrow> 'a Hash \<Rightarrow> bool" where
  "hash_in k h = (case hash_lookup h k of Own v \<Rightarrow> True | Inherited \<Rightarrow> True | Absent \<Rightarrow> False)"

text \<open>
  Decoded argument literals. \<open>'n\<close> is the type of JavaScript numbers: floating point is
  not modelled, \<open>parseFloat\<close> is a parameter of the parser.
\<close>

datatype 'n js_value =
    JString string
  | JBoolean bool
  | JNumber 'n
  | JObject "(string \<times> 'n js_value) list"
  | JArray "'n js_value list"
  | JNull

text \<open>
  \<open>Selection\<close> of \<open>types.ts\<close>; both fields are optional there. The fields \<open>name\<close> and
  \<open>kind\<close> are never read or written by the code and are left out.
\<close>

datatype 'n Selection =
  Selection (arguments: "(string \<times> 'n js_value) list option")
            (children: "(string \<times> 'n Selection) list option")

text \<open>
  \<open>children[name]\<close> read as a selection. An inherited member of \<open>Object.prototype\<close> is
  not \<open>undefined\<close>, and it has no property \<open>children\<close> (nor \<open>arguments\<close>); that is all
  the resolver reads of the value, so it stands as a selection with neither.
\<close>

definition children_get :: "'n Selection Hash \<Rightarrow> string \<Rightarrow> 'n Selection option" where
  "children_get h k =
     (case hash_lookup h k of
        Own v \<Rightarrow> Some v
      | Inherited \<Rightarrow> Some (Selection None None)
      | Absent \<Rightarrow> None)"

text \<open>The entity metadata of TypeORM, as far as the resolver reads it.\<close>

type_synonym EntityTarget = string

record ColumnMetadata =
  col_propertyName :: string
  col_databaseName :: string
  col_isPrimary :: bool

record EmbeddedMetadata =
  emb_propertyName :: string
  emb_columns :: "ColumnMetadata list"

text \<open>
  \<open>rel_inverseTarget\<close> is \<open>relation.inverseEntityMetadata.target\<close>: the resolver passes it
  to \<open>connection.getMetadata\<close>, so cyclic entity graphs need no cyclic data here.
\<close>

record RelationMetadata =
  rel_propertyName :: string
  rel_inverseTarget :: EntityTarget

record EntityMetadata =
  target :: EntityTarget
  columns :: "ColumnMetadata list"
  embeddeds :: "EmbeddedMetadata list"
  relations :: "RelationMetadata list"

text \<open>\<open>connection.getMetadata(model)\<close> throws when the entity is unknown.\<close>

type_synonym Connection = "EntityTarget \<Rightarrow> EntityMetadata option"

datatype error = EntityMetadataNotFound | TypeError

text \<open>
  The \<open>context\<close> parameter of \<open>createQuery\<close> has type \<open>any\<close>: it holds what the caller
  gave, or a number.
\<close>

datatype 'c any_context = Context 'c | NumberContext nat

text \<open>
  A value of the required-fields map: a constant boolean or a predicate over the context
  and the requested child names. \<open>truthy_required\<close> is JavaScript's truthiness of what
  \<open>requiredFields.get(name)\<close> returns: \<open>undefined\<close> and \<open>false\<close> are falsy, \<open>true\<close> and
  every function object are truthy.
\<close>

datatype 'c required_value =
    RequiredBool bool
  | RequiredPredicate "'c any_context \<Rightarrow> string list \<Rightarrow> bool"

fun truthy_required :: "'c required_value option \<Rightarrow> bool" where
  "truthy_required None = False"
| "truthy_required (Some (RequiredBool b)) = b"
| "truthy_required (Some (RequiredPredicate p)) = True"

fun truthy_ignored :: "bool option \<Rightarrow> bool" where
  "truthy_ignored None = False"
| "truthy_ignored (Some b) = b"

text \<open>
  The collaborators whose code is not part of the resolver: the field policy registry
  (\<open>getLoaderRequiredFields\<close>, \<open>getLoaderIgnoredFields\<close> of \<open>ConfigureLoader\<close>, each a
  \<open>Map\<close> given by its entries in order) and the MD5 digest in hexadecimal of Node's
  \<open>crypto\<close>.
\<close>

record 'c externals =
  getLoaderRequiredFields :: "EntityTarget \<Rightarrow> (string \<times> 'c required_value) list"
  getLoaderIgnoredFields :: "EntityTarget \<Rightarrow> (string \<times> bool) list"
  md5_hex :: "string \<Rightarrow> string"

text \<open>
  \<open>Formatter\<close> (\<open>lib/Formatter\<close>) maps an alias and a name to the selected expression
  and to the output alias; its two methods are parameters.
\<close>

record Formatter =
  columnSelection :: "string \<Rightarrow> string \<Rightarrow> string"
  aliasField :: "string \<Rightarrow> string \<Rightarrow> string"

record LoaderOptions =
  primaryKeyColumn :: "string option"
  maxQueryDepth :: "nat option"

text \<open>The private fields of \<open>GraphQLQueryResolver\<close>, set by its constructor.\<close>

record GraphQLQueryResolver =
  this_primaryKeyColumn :: "string option"
  this_formatter :: Formatter
  this_maxDepth :: enat

definition new_GraphQLQueryResolver :: "Formatter \<Rightarrow> LoaderOptions \<Rightarrow> GraphQLQueryResolver" where
  "new_GraphQLQueryResolver fmt opts =
     \<lparr> this_primaryKeyColumn = primaryKeyColumn opts,
       this_formatter = fmt,
       this_maxDepth = (case maxQueryDepth opts of None \<Rightarrow> \<infinity> | Some d \<Rightarrow> enat d) \<rparr>"

text \<open>
  TypeORM's \<open>SelectQueryBuilder\<close> is used through three methods, each of which changes
  the builder in place and returns it. The builder is the list of the calls made on it, in
  order. \<open>AddSelect s None\<close> is the call with one argument.
\<close>

datatype qb_call =
    AddSelect string "string option"
  | LeftJoin string string
  | LeftJoinAndSelect string string

type_synonym SelectQueryBuilder = "qb_call list"

section \<open>The query resolver\<close>

definition generateChildHash :: "'c externals \<Rightarrow> string \<Rightarrow> string \<Rightarrow> nat \<Rightarrow> string" where
  "generateChildHash ext alias propertyName len =
     (let output = md5_hex ext (alias @ ''__'' @ propertyName)
      in if len \<noteq> 0 then take len output else output)"

definition selectPrimaryKey ::
  "GraphQLQueryResolver \<Rightarrow> SelectQueryBuilder \<Rightarrow> ColumnMetadata list \<Rightarrow> string \<Rightarrow> SelectQueryBuilder" where
  "selectPrimaryKey this qb fields' alias =
     (case this_primaryKeyColumn this of
        None \<Rightarrow> qb
      | Some pk \<Rightarrow>
          if pk = [] then qb
          else (case find (\<lambda>field. col_propertyName field = pk) fields' of
                  Some queriedPrimaryKey \<Rightarrow> qb
                | None \<Rightarrow>
                    qb @ [AddSelect (columnSelection (this_formatter this) alias pk)
                                    (Some (aliasField (this_formatter this) alias pk))]))"

definition selectFields ::
  "GraphQLQueryResolver \<Rightarrow> SelectQueryBuilder \<Rightarrow> ColumnMetadata list \<Rightarrow> string \<Rightarrow> SelectQueryBuilder" where
  "selectFields this queryBuilder fields' alias =
     fold (\<lambda>field qb.
             qb @ [AddSelect (columnSelection (this_formatter this) alias (col_propertyName field))
                             (Some (aliasField (this_formatter this) alias (col_databaseName field)))])
          fields' (selectPrimaryKey this queryBuilder fields' alias)"

text \<open>
  One iteration of the first \<open>forEach\<close> of \<open>_selectEmbeddedFields\<close>: the lists it
  pushes on \<open>embeddedFieldsToSelect\<close>. \<open>children.hasOwnProperty(...)\<close> calls whatever
  \<open>children.hasOwnProperty\<close> is: when the client selected a field of that name it is a
  selection, not a function, and the call throws a \<open>TypeError\<close>.
  \<open>columnName in embeddedSelection.children!\<close> throws a \<open>TypeError\<close> when \<open>children\<close> is
  \<open>undefined\<close>; the test runs once for each column of the embedded entity.
\<close>

definition embeddedFieldToSelect ::
  "'c externals \<Rightarrow> 'n Selection Hash \<Rightarrow> EntityMetadata \<Rightarrow> EmbeddedMetadata \<Rightarrow> error + string list list" where
  "embeddedFieldToSelect ext children' meta field =
     (let requiredFields = getLoaderRequiredFields ext (target meta);
          embeddedFieldName = emb_propertyName field
      in if truthy_required (map_of requiredFields embeddedFieldName)
         then Inr [map (\<lambda>c. embeddedFieldName @ ''.'' @ col_propertyName c) (emb_columns field)]
         else if hash_get children' ''hasOwnProperty'' \<noteq> None then Inl TypeError
         else (case hash_get children' embeddedFieldName of
                 None \<Rightarrow> Inr []
               | Some embeddedSelection \<Rightarrow>
                   (let embeddedFieldColumnNames = map col_propertyName (emb_columns field)
                    in case children embeddedSelection of
                         None \<Rightarrow> if embeddedFieldColumnNames = [] then Inr [[]] else Inl TypeError
                       | Some ec \<Rightarrow>
                           Inr [map (\<lambda>columnName. embeddedFieldName @ ''.'' @ columnName)
                                    (filter (\<lambda>columnName. hash_in columnName ec)
                                            embeddedFieldColumnNames)])))"

fun embeddedFieldsToSelect ::
  "'c externals \<Rightarrow> 'n Selection Hash \<Rightarrow> EntityMetadata \<Rightarrow> EmbeddedMetadata list \<Rightarrow> error + string list list" where
  "embeddedFieldsToSelect ext children' meta [] = Inr []"
| "embeddedFieldsToSelect ext children' meta (field # rest) =
     (case embeddedFieldToSelect ext children' meta field of
        Inl e \<Rightarrow> Inl e
      | Inr pushed \<Rightarrow>
          (case embeddedFieldsToSelect ext children' meta rest of
             Inl e \<Rightarrow> Inl e
           | Inr others \<Rightarrow> Inr (pushed @ others)))"

definition selectEmbeddedFields ::
  "GraphQLQueryResolver \<Rightarrow> 'c externals \<Rightarrow> SelectQueryBuilder \<Rightarrow> EmbeddedMetadata list \<Rightarrow>
   'n Selection Hash \<Rightarrow> EntityMetadata \<Rightarrow> string \<Rightarrow> error + SelectQueryBuilder" where
  "selectEmbeddedFields this ext queryBuilder embeddedFields children' meta alias =
     (case embeddedFieldsToSelect ext children' meta embeddedFields of
        Inl e \<Rightarrow> Inl e
      | Inr toSelect \<Rightarrow>
          Inr (fold (\<lambda>field qb. qb @ [AddSelect (columnSelection (this_formatter this) alias field) None])
                    (concat toSelect) queryBuilder))"

text \<open>The two filters at the head of \<open>createQuery\<close> (its locals \<open>fields\<close> and \<open>embeddedFields\<close>).\<close>

definition createQuery_fields ::
  "'c externals \<Rightarrow> EntityMetadata \<Rightarrow> 'n Selection Hash \<Rightarrow> ColumnMetadata list" where
  "createQuery_fields ext meta children' =
     (let requiredFields = getLoaderRequiredFields ext (target meta);
          ignoredFields = getLoaderIgnoredFields ext (target meta)
      in filter (\<lambda>field.
                   \<not> truthy_ignored (map_of ignoredFields (col_propertyName field)) \<and>
                   (col_isPrimary field \<or>
                    hash_in (col_propertyName field) children' \<or>
                    truthy_required (map_of requiredFields (col_propertyName field))))
                (columns meta))"

definition createQuery_embeddedFields ::
  "'c externals \<Rightarrow> EntityMetadata \<Rightarrow> 'n Selection Hash \<Rightarrow> EmbeddedMetadata list" where
  "createQuery_embeddedFields ext meta children' =
     (let requiredFields = getLoaderRequiredFields ext (target meta);
          ignoredFields = getLoaderIgnoredFields ext (target meta)
      in filter (\<lambda>embed.
                   \<not> truthy_ignored (map_of ignoredFields (emb_propertyName embed)) \<and>
                   (hash_in (emb_propertyName embed) children' \<or>
                    truthy_required (map_of requiredFields (emb_propertyName embed))))
                (embeddeds meta))"

text \<open>A child of a node is smaller than the children object that holds it.\<close>

lemma size_hash_get:
  "map_of h k = Some (s::'n Selection) \<Longrightarrow> size s < size_list (size_prod (\<lambda>_. 0) size) h"
  by (induction h) (auto split: if_splits)

lemma size_children_get:
  "map_of h k = Some (s::'n Selection) \<Longrightarrow> children s = Some ch \<Longrightarrow>
   size_list (size_prod (\<lambda>_. 0) size) ch + 2 \<le> size_list (size_prod (\<lambda>_. 0) size) h"
  using size_hash_get[of h k s] by (cases s) simp

text \<open>
  \<open>createQuery\<close> and \<open>_selectRelations\<close> call each other. \<open>selectRelations_forEach\<close> is
  the \<open>forEach\<close> over the relations that passed the filter. The builder is threaded
  through the calls; an exception ends the traversal.

  The recursive call of the source is
  \<^verbatim>\<open>this.createQuery(relation.inverseEntityMetadata.target, children[relation.propertyName],
                   connection, queryBuilder, childAlias, depth + 1)\<close>
  with six arguments for the seven parameters
  \<open>(model, selection, connection, queryBuilder, alias, context, depth = 0)\<close>: the value
  \<open>depth + 1\<close> is bound to \<open>context\<close> and \<open>depth\<close> takes its default 0.
\<close>

function
  createQuery ::
    "GraphQLQueryResolver \<Rightarrow> 'c externals \<Rightarrow> EntityTarget \<Rightarrow> 'n Selection option \<Rightarrow> Connection \<Rightarrow>
     SelectQueryBuilder \<Rightarrow> string \<Rightarrow> 'c any_context \<Rightarrow> nat \<Rightarrow> error + SelectQueryBuilder"
and
  selectRelations ::
    "GraphQLQueryResolver \<Rightarrow> 'c externals \<Rightarrow> SelectQueryBuilder \<Rightarrow> 'n Selection Hash \<Rightarrow>
     RelationMetadata list \<Rightarrow> string \<Rightarrow> EntityMetadata \<Rightarrow> Connection \<Rightarrow> nat \<Rightarrow> error + SelectQueryBuilder"
and
  selectRelations_forEach ::
    "GraphQLQueryResolver \<Rightarrow> 'c externals \<Rightarrow> SelectQueryBuilder \<Rightarrow> 'n Selection Hash \<Rightarrow>
     RelationMetadata list \<Rightarrow> string \<Rightarrow> EntityMetadata \<Rightarrow> Connection \<Rightarrow> nat \<Rightarrow> error + SelectQueryBuilder"
where
  "createQuery this ext model selection connection queryBuilder alias context depth =
     (case connection model of
        None \<Rightarrow> Inl EntityMetadataNotFound
      | Some meta \<Rightarrow>
          (case selection of
             None \<Rightarrow> Inr queryBuilder
           | Some sel \<Rightarrow>
               (case children sel of
                  None \<Rightarrow> Inr queryBuilder
                | Some children' \<Rightarrow>
                    (case selectEmbeddedFields this ext
                            (selectFields this queryBuilder (createQuery_fields ext meta children') alias)
                            (createQuery_embeddedFields ext meta children') children' meta alias of
                       Inl e \<Rightarrow> Inl e
                     | Inr qb \<Rightarrow>
                         if enat depth < this_maxDepth this
                         then selectRelations this ext qb children' (relations meta) alias meta
                                connection depth
                         else Inr qb))))"
| "selectRelations this ext queryBuilder children' relations' alias meta connection depth =
     selectRelations_forEach this ext queryBuilder children'
       (filter (\<lambda>relation. \<not> truthy_ignored
                  (map_of (getLoaderIgnoredFields ext (target meta)) (rel_propertyName relation)))
               relations')
       alias meta connection depth"
| "selectRelations_forEach this ext queryBuilder children' [] alias meta connection depth =
     Inr queryBuilder"
| "selectRelations_forEach this ext queryBuilder children' (relation # rest) alias meta connection depth =
     (let isRequired = truthy_required
            (map_of (getLoaderRequiredFields ext (target meta)) (rel_propertyName relation))
      in if hash_in (rel_propertyName relation) children' \<or> isRequired
         then
           (let childAlias = generateChildHash ext alias (rel_propertyName relation) 10;
                joined = queryBuilder @
                  [if isRequired
                   then LeftJoinAndSelect
                          (columnSelection (this_formatter this) alias (rel_propertyName relation)) childAlias
                   else LeftJoin
                          (columnSelection (this_formatter this) alias (rel_propertyName relation)) childAlias]
            in case createQuery this ext (rel_inverseTarget relation)
                      (children_get children' (rel_propertyName relation)) connection joined childAlias
                      (NumberContext (depth + 1)) 0 of
                 Inl e \<Rightarrow> Inl e
               | Inr qb \<Rightarrow>
                   selectRelations_forEach this ext qb children' rest alias meta connection depth)
         else selectRelations_forEach this ext queryBuilder children' rest alias meta connection depth)"
  by pat_completeness auto

text \<open>
  The recursion follows the selection tree: \<open>createQuery\<close> hands the children of its node
  to \<open>_selectRelations\<close>, which calls \<open>createQuery\<close> on one of these children (or on
  \<open>undefined\<close>).
\<close>

termination
  apply (relation "measures [
     (\<lambda>x. case x of
        Inl (this, ext, model, selection, rest) \<Rightarrow>
          (case selection of
             None \<Rightarrow> 0
           | Some s \<Rightarrow>
               (case children s of
                  None \<Rightarrow> 0
                | Some ch \<Rightarrow> 3 * size_list (size_prod (\<lambda>_. 0) size) ch + 3))
      | Inr (Inl (this, ext, qb, ch, rest)) \<Rightarrow> 3 * size_list (size_prod (\<lambda>_. 0) size) ch + 2
      | Inr (Inr (this, ext, qb, ch, rest)) \<Rightarrow> 3 * size_list (size_prod (\<lambda>_. 0) size) ch + 1),
     (\<lambda>x. case x of
        Inl _ \<Rightarrow> 0
      | Inr (Inl _) \<Rightarrow> 0
      | Inr (Inr (this, ext, qb, ch, rels, rest)) \<Rightarrow> length rels)]")
  apply simp_all
  subgoal for this ext queryBuilder ch relation al meta
    by (auto simp: children_get_def hash_lookup_def split: option.splits dest!: size_children_get)
  done

declare createQuery.simps [simp del] selectRelations.simps [simp del]

text \<open>
  \<open>_selectRequiredFields\<close>: the pass over the required-fields map that evaluates a
  predicate entry with the context and \<open>Object.keys(children)\<close>. Its only call, in
  \<open>createQuery\<close>, is commented out in the source, so \<open>createQuery\<close> above does not use it.
\<close>

definition isRequired_entry :: "'c required_value \<Rightarrow> 'c any_context \<Rightarrow> 'n Selection Hash \<Rightarrow> bool" where
  "isRequired_entry predicate context children' =
     (case predicate of
        RequiredPredicate p \<Rightarrow> p context (map fst children')
      | RequiredBool b \<Rightarrow> b)"

definition selectRequiredFields ::
  "GraphQLQueryResolver \<Rightarrow> 'c externals \<Rightarrow> SelectQueryBuilder \<Rightarrow> 'n Selection Hash \<Rightarrow> string \<Rightarrow>
   EntityMetadata \<Rightarrow> 'c any_context \<Rightarrow> SelectQueryBuilder" where
  "selectRequiredFields this ext queryBuilder children' alias meta context =
     fold (\<lambda>(key, predicate) qb.
             if \<not> isRequired_entry predicate context children' then qb
             else (case find (\<lambda>c. col_propertyName c = key) (columns meta) of
                     Some col \<Rightarrow>
                       qb @ [AddSelect (columnSelection (this_formatter this) alias (col_propertyName col))
                                       (Some (aliasField (this_formatter this) alias (col_databaseName col)))]
                   | None \<Rightarrow>
                       (case find (\<lambda>r. rel_propertyName r = key) (relations meta) of
                          Some rel \<Rightarrow>
                            qb @ [LeftJoinAndSelect
                                    (columnSelection (this_formatter this) alias (rel_propertyName rel))
                                    (generateChildHash ext alias (rel_propertyName rel) 10)]
                        | None \<Rightarrow>
                            (case find (\<lambda>e. emb_propertyName e = key) (embeddeds meta) of
                               Some embed' \<Rightarrow>
                                 qb @ [AddSelect
                                         (columnSelection (this_formatter this) alias (emb_propertyName embed'))
                                         (Some (aliasField (this_formatter this) alias (emb_propertyName embed')))]
                             | None \<Rightarrow> qb))))
          (getLoaderRequiredFields ext (target meta)) queryBuilder"

section \<open>The selection tree builder\<close>

text \<open>
  The part of the GraphQL AST that \<open>GraphQLInfoParser\<close> reads. A literal is a
  \<open>ValueNode\<close>; \<open>OtherValue\<close> stands for the kinds \<open>parseLiteral\<close> sends to its
  \<open>default\<close> branch (variables, enums, null). A field has a name, optional arguments and
  an optional selection set; a fragment spread names a fragment of \<open>info.fragments\<close>.
\<close>

datatype ValueNode =
    StringValue string
  | BooleanValue bool
  | IntValue string
  | FloatValue string
  | ObjectValue "(string \<times> ValueNode) list"
  | ListValue "ValueNode list"
  | OtherValue

datatype SelectionNode =
    FieldNode string "(string \<times> ValueNode) list option" "SelectionNode list option"
  | InlineFragment "SelectionNode list option"
  | FragmentSpread string

datatype ASTNode =
    SelectionAST SelectionNode
  | FragmentDefinition "SelectionNode list option"

record ResolveInfo =
  fieldNodes :: "SelectionNode list"
  fragments :: "(string \<times> ASTNode) list"

text \<open>
  \<open>parseLiteral\<close>. The flag tells whether \<open>this\<close> is bound. A list literal is decoded by
  \<open>ast.values.map(this.parseLiteral)\<close>, which reads \<open>this.parseLiteral\<close> (a \<open>TypeError\<close>
  when \<open>this\<close> is \<open>undefined\<close>) and then calls the method detached, so without \<open>this\<close>,
  on each element. An object literal calls \<open>this.parseLiteral\<close> once for each field.
\<close>

fun parseLiteral :: "(string \<Rightarrow> 'n) \<Rightarrow> bool \<Rightarrow> ValueNode \<Rightarrow> error + 'n js_value"
and parseLiteral_fields ::
      "(string \<Rightarrow> 'n) \<Rightarrow> bool \<Rightarrow> (string \<times> ValueNode) list \<Rightarrow> (string \<times> 'n js_value) list \<Rightarrow>
       error + (string \<times> 'n js_value) list"
and parseLiteral_values :: "(string \<Rightarrow> 'n) \<Rightarrow> ValueNode list \<Rightarrow> error + 'n js_value list"
where
  "parseLiteral parseFloat bound (StringValue v) = Inr (JString v)"
| "parseLiteral parseFloat bound (BooleanValue v) = Inr (JBoolean v)"
| "parseLiteral parseFloat bound (IntValue v) = Inr (JNumber (parseFloat v))"
| "parseLiteral parseFloat bound (FloatValue v) = Inr (JNumber (parseFloat v))"
| "parseLiteral parseFloat bound (ObjectValue fs) =
     (case parseLiteral_fields parseFloat bound fs [] of
        Inl e \<Rightarrow> Inl e
      | Inr v \<Rightarrow> Inr (JObject v))"
| "parseLiteral parseFloat bound (ListValue vs) =
     (if \<not> bound then Inl TypeError
      else (case parseLiteral_values parseFloat vs of
              Inl e \<Rightarrow> Inl e
            | Inr xs \<Rightarrow> Inr (JArray xs)))"
| "parseLiteral parseFloat bound OtherValue = Inr JNull"
| "parseLiteral_fields parseFloat bound [] acc = Inr acc"
| "parseLiteral_fields parseFloat bound ((k, v) # rest) acc =
     (if \<not> bound then Inl TypeError
      else (case parseLiteral parseFloat True v of
              Inl e \<Rightarrow> Inl e
            | Inr x \<Rightarrow> parseLiteral_fields parseFloat bound rest (AList.update k x acc)))"
| "parseLiteral_values parseFloat [] = Inr []"
| "parseLiteral_values parseFloat (v # rest) =
     (case parseLiteral parseFloat False v of
        Inl e \<Rightarrow> Inl e
      | Inr x \<Rightarrow>
          (case parseLiteral_values parseFloat rest of
             Inl e \<Rightarrow> Inl e
           | Inr xs \<Rightarrow> Inr (x # xs)))"

text \<open>
  The arguments of a new node: each argument is decoded (\<open>map\<close>), then the one-entry
  objects are merged left to right (\<open>reduce\<close> with object spread, so a repeated name keeps
  its first position and its last value). No \<open>arguments\<close> array gives \<open>{}\<close>.
\<close>

fun decodeArguments_map ::
  "(string \<Rightarrow> 'n) \<Rightarrow> (string \<times> ValueNode) list \<Rightarrow> error + (string \<times> 'n js_value) list" where
  "decodeArguments_map parseFloat [] = Inr []"
| "decodeArguments_map parseFloat ((k, v) # rest) =
     (case parseLiteral parseFloat True v of
        Inl e \<Rightarrow> Inl e
      | Inr x \<Rightarrow>
          (case decodeArguments_map parseFloat rest of
             Inl e \<Rightarrow> Inl e
           | Inr xs \<Rightarrow> Inr ((k, x) # xs)))"

definition decodeArguments ::
  "(string \<Rightarrow> 'n) \<Rightarrow> (string \<times> ValueNode) list option \<Rightarrow> error + (string \<times> 'n js_value) list" where
  "decodeArguments parseFloat args =
     (case args of
        None \<Rightarrow> Inr []
      | Some as \<Rightarrow>
          (case decodeArguments_map parseFloat as of
             Inl e \<Rightarrow> Inl e
           | Inr entries \<Rightarrow> Inr (fold (\<lambda>(k, x) p. AList.update k x p) entries [])))"

fun getSelections :: "ASTNode option \<Rightarrow> SelectionNode list" where
  "getSelections (Some (SelectionAST (FieldNode name args (Some selections)))) = selections"
| "getSelections (Some (SelectionAST (InlineFragment (Some selections)))) = selections"
| "getSelections (Some (FragmentDefinition (Some selections))) = selections"
| "getSelections other = []"

fun isFragment :: "SelectionNode \<Rightarrow> bool" where
  "isFragment (InlineFragment s) = True"
| "isFragment (FragmentSpread n) = True"
| "isFragment (FieldNode name args s) = False"

fun getAST :: "SelectionNode \<Rightarrow> ResolveInfo \<Rightarrow> ASTNode option" where
  "getAST (FragmentSpread fragmentName) info = hash_get (fragments info) fragmentName"
| "getAST ast info = Some (SelectionAST ast)"

text \<open>
  \<open>flattenAST\<close> is \<open>getSelections(ast).reduce(...)\<close>; \<open>flattenAST_reduce\<close> is the
  \<open>reduce\<close>, one equation for each kind of selection. The source changes \<open>flattened\<close>
  and the children of its nodes in place and returns the same objects; the model returns
  the new values (\<open>Object.assign(x, x)\<close> changes nothing). Each children object is
  created by one \<open>flattenAST\<close> call and belongs to one node, so no two nodes share it.

  A fragment that spreads itself makes the source recurse without end. The first argument
  bounds the depth of nested \<open>flattenAST\<close> calls; \<open>None\<close> is a run that needs more.

  In \<open>Object.assign(flattened[name].children, this.flattenAST(node, info,
  flattened[name].children))\<close> the call of \<open>flattenAST\<close> is evaluated first; with
  \<open>children\<close> \<open>undefined\<close> it runs on a new \<open>{}\<close> (the default of the parameter) and
  \<open>Object.assign\<close> then throws a \<open>TypeError\<close>. That is also what happens for a field
  named like a member of \<open>Object.prototype\<close>: \<open>flattened[name]\<close> is the inherited
  member, which is truthy and has no \<open>children\<close>.
\<close>

fun flattenAST ::
      "nat \<Rightarrow> (string \<Rightarrow> 'n) \<Rightarrow> ResolveInfo \<Rightarrow> ASTNode option \<Rightarrow> 'n Selection Hash \<Rightarrow>
       (error + 'n Selection Hash) option"
and flattenAST_reduce ::
      "nat \<Rightarrow> (string \<Rightarrow> 'n) \<Rightarrow> ResolveInfo \<Rightarrow> SelectionNode list \<Rightarrow> 'n Selection Hash \<Rightarrow>
       (error + 'n Selection Hash) option"
where
  "flattenAST fuel parseFloat info ast obj =
     flattenAST_reduce fuel parseFloat info (getSelections ast) obj"
| "flattenAST_reduce fuel parseFloat info [] flattened = Some (Inr flattened)"
| "flattenAST_reduce 0 parseFloat info (n # rest) flattened = None"
| "flattenAST_reduce (Suc fuel) parseFloat info (FieldNode name args selectionSet # rest) flattened =
     (case hash_lookup flattened name of
        Own existing \<Rightarrow>
          (case children existing of
             Some ch \<Rightarrow>
               (case flattenAST fuel parseFloat info
                       (Some (SelectionAST (FieldNode name args selectionSet))) ch of
                  None \<Rightarrow> None
                | Some (Inl e) \<Rightarrow> Some (Inl e)
                | Some (Inr ch') \<Rightarrow>
                    flattenAST_reduce (Suc fuel) parseFloat info rest
                      (AList.update name (Selection (arguments existing) (Some ch')) flattened))
           | None \<Rightarrow>
               (case flattenAST fuel parseFloat info
                       (Some (SelectionAST (FieldNode name args selectionSet))) [] of
                  None \<Rightarrow> None
                | Some (Inl e) \<Rightarrow> Some (Inl e)
                | Some (Inr ch') \<Rightarrow> Some (Inl TypeError)))
      | Inherited \<Rightarrow>
          (case flattenAST fuel parseFloat info
                  (Some (SelectionAST (FieldNode name args selectionSet))) [] of
             None \<Rightarrow> None
           | Some (Inl e) \<Rightarrow> Some (Inl e)
           | Some (Inr ch') \<Rightarrow> Some (Inl TypeError))
      | Absent \<Rightarrow>
          (case decodeArguments parseFloat args of
             Inl e \<Rightarrow> Some (Inl e)
           | Inr decoded \<Rightarrow>
               (case flattenAST fuel parseFloat info
                       (Some (SelectionAST (FieldNode name args selectionSet))) [] of
                  None \<Rightarrow> None
                | Some (Inl e) \<Rightarrow> Some (Inl e)
                | Some (Inr ch) \<Rightarrow>
                    flattenAST_reduce (Suc fuel) parseFloat info rest
                      (AList.update name (Selection (Some decoded) (Some ch)) flattened))))"
| "flattenAST_reduce (Suc fuel) parseFloat info (InlineFragment selectionSet # rest) flattened =
     (case flattenAST fuel parseFloat info (getAST (InlineFragment selectionSet) info) flattened of
        None \<Rightarrow> None
      | Some (Inl e) \<Rightarrow> Some (Inl e)
      | Some (Inr flattened') \<Rightarrow> flattenAST_reduce (Suc fuel) parseFloat info rest flattened')"
| "flattenAST_reduce (Suc fuel) parseFloat info (FragmentSpread fragmentName # rest) flattened =
     (case flattenAST fuel parseFloat info (getAST (FragmentSpread fragmentName) info) flattened of
        None \<Rightarrow> None
      | Some (Inl e) \<Rightarrow> Some (Inl e)
      | Some (Inr flattened') \<Rightarrow> flattenAST_reduce (Suc fuel) parseFloat info rest flattened')"

text \<open>\<open>graphqlFields\<close>: the field nodes of \<open>info\<close> are flattened one after the other into \<open>obj\<close>.\<close>

fun graphqlFields_reduce ::
  "nat \<Rightarrow> (string \<Rightarrow> 'n) \<Rightarrow> ResolveInfo \<Rightarrow> SelectionNode list \<Rightarrow> 'n Selection Hash \<Rightarrow>
   (error + 'n Selection Hash) option" where
  "graphqlFields_reduce fuel parseFloat info [] o' = Some (Inr o')"
| "graphqlFields_reduce fuel parseFloat info (ast # rest) o' =
     (case flattenAST fuel parseFloat info (Some (SelectionAST ast)) o' of
        None \<Rightarrow> None
      | Some (Inl e) \<Rightarrow> Some (Inl e)
      | Some (Inr o'') \<Rightarrow> graphqlFields_reduce fuel parseFloat info rest o'')"

definition graphqlFields ::
  "nat \<Rightarrow> (string \<Rightarrow> 'n) \<Rightarrow> ResolveInfo \<Rightarrow> 'n Selection Hash \<Rightarrow> (error + 'n Selection) option" where
  "graphqlFields fuel parseFloat info obj =
     (case graphqlFields_reduce fuel parseFloat info (fieldNodes info) obj of
        None \<Rightarrow> None
      | Some (Inl e) \<Rightarrow> Some (Inl e)
      | Some (Inr children') \<Rightarrow> Some (Inr (Selection None (Some children'))))"

section \<open>Vocabulary of the properties\<close>

text \<open>A call that joins a relation, as opposed to a projection.\<close>

fun is_join :: "qb_call \<Rightarrow> bool" where
  "is_join (AddSelect s a) = False"
| "is_join (LeftJoin p a) = True"
| "is_join (LeftJoinAndSelect p a) = True"

text \<open>The projection \<open>_selectFields\<close> adds for one column.\<close>

definition column_projection :: "GraphQLQueryResolver \<Rightarrow> string \<Rightarrow> ColumnMetadata \<Rightarrow> qb_call" where
  "column_projection this alias field =
     AddSelect (columnSelection (this_formatter this) alias (col_propertyName field))
               (Some (aliasField (this_formatter this) alias (col_databaseName field)))"

text \<open>The alias a join call gives to the relation it joins.\<close>

fun join_alias :: "qb_call \<Rightarrow> string option" where
  "join_alias (AddSelect s a) = None"
| "join_alias (LeftJoin p a) = Some a"
| "join_alias (LeftJoinAndSelect p a) = Some a"

text \<open>A projection with an output alias: the call \<open>_selectFields\<close> makes for a column.\<close>

fun is_column_projection :: "qb_call \<Rightarrow> bool" where
  "is_column_projection (AddSelect s (Some a)) = True"
| "is_column_projection other = False"

text \<open>
  The metadata without the properties that the policy of the entity ignores, and the
  connection that serves every entity so.
\<close>

definition not_ignored :: "'c externals \<Rightarrow> EntityMetadata \<Rightarrow> string \<Rightarrow> bool" where
  "not_ignored ext meta name =
     (\<not> truthy_ignored (map_of (getLoaderIgnoredFields ext (target meta)) name))"

definition strip_ignored :: "'c externals \<Rightarrow> EntityMetadata \<Rightarrow> EntityMetadata" where
  "strip_ignored ext meta =
     meta\<lparr> columns := filter (\<lambda>c. not_ignored ext meta (col_propertyName c)) (columns meta),
           embeddeds := filter (\<lambda>e. not_ignored ext meta (emb_propertyName e)) (embeddeds meta),
           relations := filter (\<lambda>r. not_ignored ext meta (rel_propertyName r)) (relations meta) \<rparr>"

definition strip_connection :: "'c externals \<Rightarrow> Connection \<Rightarrow> Connection" where
  "strip_connection ext connection = (\<lambda>model. map_option (strip_ignored ext) (connection model))"

text \<open>
  The selections of an optional selection set, and those a node of \<open>info.fieldNodes\<close>
  carries itself.
\<close>

definition selection_set :: "SelectionNode list option \<Rightarrow> SelectionNode list" where
  "selection_set s = (case s of Some selections \<Rightarrow> selections | None \<Rightarrow> [])"

fun selections_of :: "SelectionNode \<Rightarrow> SelectionNode list" where
  "selections_of (FieldNode name args s) = selection_set s"
| "selections_of (InlineFragment s) = selection_set s"
| "selections_of (FragmentSpread f) = []"

text \<open>
  The node that a field selection leaves under its name in \<open>flattened\<close>, given what
  \<open>flattened[name]\<close> held before: the body of the \<open>else\<close> branch of \<open>flattenAST\<close>, as a
  function of the property found.
\<close>

definition mergeField ::
  "nat \<Rightarrow> (string \<Rightarrow> 'n) \<Rightarrow> ResolveInfo \<Rightarrow> string \<Rightarrow> (string \<times> ValueNode) list option \<Rightarrow>
   SelectionNode list option \<Rightarrow> 'n Selection property \<Rightarrow> (error + 'n Selection) option" where
  "mergeField fuel parseFloat info name args selectionSet found =
     (case found of
        Own existing \<Rightarrow>
          (case children existing of
             Some ch \<Rightarrow>
               (case flattenAST fuel parseFloat info
                       (Some (SelectionAST (FieldNode name args selectionSet))) ch of
                  None \<Rightarrow> None
                | Some (Inl e) \<Rightarrow> Some (Inl e)
                | Some (Inr ch') \<Rightarrow> Some (Inr (Selection (arguments existing) (Some ch'))))
           | None \<Rightarrow>
               (case flattenAST fuel parseFloat info
                       (Some (SelectionAST (FieldNode name args selectionSet))) [] of
                  None \<Rightarrow> None
                | Some (Inl e) \<Rightarrow> Some (Inl e)
                | Some (Inr ch') \<Rightarrow> Some (Inl TypeError)))
      | Inherited \<Rightarrow>
          (case flattenAST fuel parseFloat info
                  (Some (SelectionAST (FieldNode name args selectionSet))) [] of
             None \<Rightarrow> None
           | Some (Inl e) \<Rightarrow> Some (Inl e)
           | Some (Inr ch') \<Rightarrow> Some (Inl TypeError))
      | Absent \<Rightarrow>
          (case decodeArguments parseFloat args of
             Inl e \<Rightarrow> Some (Inl e)
           | Inr decoded \<Rightarrow>
               (case flattenAST fuel parseFloat info
                       (Some (SelectionAST (FieldNode name args selectionSet))) [] of
                  None \<Rightarrow> None
                | Some (Inl e) \<Rightarrow> Some (Inl e)
                | Some (Inr ch) \<Rightarrow> Some (Inr (Selection (Some decoded) (Some ch))))))"

text \<open>
  A request that \<open>flattenAST\<close> flattens within the bound \<open>fuel\<close> on the nesting of
  selection sets and fragments: no field is named like a member every object inherits,
  the arguments of every field can be decoded, and a fragment spread names a fragment
  definition or nothing.
\<close>

fun well_formed :: "nat \<Rightarrow> (string \<Rightarrow> 'n) \<Rightarrow> ResolveInfo \<Rightarrow> SelectionNode list \<Rightarrow> bool" where
  "well_formed fuel parseFloat info [] = True"
| "well_formed 0 parseFloat info (n # rest) = False"
| "well_formed (Suc fuel) parseFloat info (FieldNode name args s # rest) =
     (name \<notin> set object_prototype_names \<and>
      (case decodeArguments parseFloat args of Inl e \<Rightarrow> False | Inr decoded \<Rightarrow> True) \<and>
      well_formed fuel parseFloat info (selection_set s) \<and>
      well_formed (Suc fuel) parseFloat info rest)"
| "well_formed (Suc fuel) parseFloat info (InlineFragment s # rest) =
     (well_formed fuel parseFloat info (selection_set s) \<and>
      well_formed (Suc fuel) parseFloat info rest)"
| "well_formed (Suc fuel) parseFloat info (FragmentSpread f # rest) =
     ((case map_of (fragments info) f of
         None \<Rightarrow> True
       | Some (FragmentDefinition s) \<Rightarrow> well_formed fuel parseFloat info (selection_set s)
       | Some (SelectionAST n) \<Rightarrow> False) \<and>
      well_formed (Suc fuel) parseFloat info rest)"

text \<open>
  A node is complete when it has a children dictionary and every node below it has one;
  so are the nodes \<open>flattenAST\<close> makes.
\<close>

primrec complete :: "'n Selection \<Rightarrow> bool" where
  "complete (Selection a c) =
     (case map_option (map (map_prod id complete)) c of
        None \<Rightarrow> False
      | Some bs \<Rightarrow> list_all snd bs)"

definition complete_hash :: "'n Selection Hash \<Rightarrow> bool" where
  "complete_hash h = list_all (\<lambda>p. complete (snd p)) h"

text \<open>
  \<open>merged A X Y\<close>: the dictionary \<open>X\<close> has the keys of \<open>A\<close> and of \<open>Y\<close>; a key that \<open>Y\<close>
  lacks has in \<open>X\<close> the node it has in \<open>A\<close>, and a key that \<open>A\<close> lacks has in \<open>X\<close> the
  node it has in \<open>Y\<close>. \<open>merged_nodes A X Y\<close>: a key of both \<open>A\<close> and \<open>Y\<close> has in \<open>X\<close> the
  arguments of its node in \<open>A\<close> and, as children, the children of both nodes merged.
\<close>

definition merged :: "'a Hash \<Rightarrow> 'a Hash \<Rightarrow> 'a Hash \<Rightarrow> bool" where
  "merged A X Y \<longleftrightarrow>
     fst ` set X = fst ` set A \<union> fst ` set Y \<and>
     (\<forall>k. k \<notin> fst ` set Y \<longrightarrow> map_of X k = map_of A k) \<and>
     (\<forall>k. k \<notin> fst ` set A \<longrightarrow> map_of X k = map_of Y k)"

definition merged_nodes :: "'n Selection Hash \<Rightarrow> 'n Selection Hash \<Rightarrow> 'n Selection Hash \<Rightarrow> bool" where
  "merged_nodes A X Y \<longleftrightarrow>
     (\<forall>name a y. map_of A name = Some a \<and> map_of Y name = Some y \<longrightarrow>
        (\<exists>ca cx cy. children a = Some ca \<and> children y = Some cy \<and>
           map_of X name = Some (Selection (arguments a) (Some cx)) \<and> merged ca cx cy))"

section \<open>Example entities\<close>

text \<open>
  The entities of the test suite (\<open>Author\<close>, \<open>Book\<close>, \<open>Publisher\<close>, \<open>Review\<close>), an
  entity \<open>Thing\<close> with a column named \<open>constructor\<close>, a
  formatter that writes \<open>alias.field\<close> and \<open>alias_field\<close>, and a stand-in for the MD5
  digest (32 hexadecimal characters computed from the text), used to run the resolver on
  concrete requests.
\<close>

definition dot_formatter :: Formatter where
  "dot_formatter =
     \<lparr> columnSelection = (\<lambda>a f. a @ ''.'' @ f), aliasField = (\<lambda>a f. a @ ''_'' @ f) \<rparr>"

definition toy_md5 :: "string \<Rightarrow> string" where
  "toy_md5 s =
     (let h = sum_list (map (of_char :: char \<Rightarrow> nat) s) mod 16;
          g = (h + 5 * length s) mod 16
      in concat (replicate 16 [''0123456789abcdef'' ! h, ''0123456789abcdef'' ! g]))"

definition column :: "string \<Rightarrow> bool \<Rightarrow> ColumnMetadata" where
  "column name pk = \<lparr> col_propertyName = name, col_databaseName = name, col_isPrimary = pk \<rparr>"

definition relation :: "string \<Rightarrow> EntityTarget \<Rightarrow> RelationMetadata" where
  "relation name tgt = \<lparr> rel_propertyName = name, rel_inverseTarget = tgt \<rparr>"

definition author_meta :: EntityMetadata where
  "author_meta =
     \<lparr> target = ''Author'', columns = [column ''id'' True, column ''name'' False],
       embeddeds = [], relations = [relation ''books'' ''Book''] \<rparr>"

definition book_meta :: EntityMetadata where
  "book_meta =
     \<lparr> target = ''Book'',
       columns = [column ''id'' True, column ''title'' False, column ''isbn'' False],
       embeddeds = [],
       relations = [relation ''author'' ''Author'', relation ''publisher'' ''Publisher''] \<rparr>"

definition publisher_meta :: EntityMetadata where
  "publisher_meta =
     \<lparr> target = ''Publisher'', columns = [column ''id'' True, column ''name'' False],
       embeddeds = [\<lparr> emb_propertyName = ''address'',
                      emb_columns = [column ''street'' False, column ''city'' False] \<rparr>],
       relations = [relation ''books'' ''Book''] \<rparr>"

definition review_meta :: EntityMetadata where
  "review_meta =
     \<lparr> target = ''Review'',
       columns = [column ''reviewId'' True, column ''id'' False, column ''text'' False],
       embeddeds = [], relations = [relation ''book'' ''Book''] \<rparr>"

definition thing_meta :: EntityMetadata where
  "thing_meta =
     \<lparr> target = ''Thing'',
       columns = [column ''id'' True, column ''constructor'' False, column ''label'' False],
       embeddeds = [], relations = [] \<rparr>"

definition library :: Connection where
  "library = map_of [(''Author'', author_meta), (''Book'', book_meta),
                     (''Publisher'', publisher_meta), (''Review'', review_meta),
                     (''Thing'', thing_meta)]"

definition leaf :: "unit Selection" where
  "leaf = Selection (Some []) (Some [])"

definition policy ::
  "(EntityTarget \<Rightarrow> (string \<times> unit required_value) list) \<Rightarrow> (EntityTarget \<Rightarrow> (string \<times> bool) list) \<Rightarrow>
   unit externals" where
  "policy required ignored =
     \<lparr> getLoaderRequiredFields = required, getLoaderIgnoredFields = ignored, md5_hex = toy_md5 \<rparr>"

definition no_policy :: "unit externals" where
  "no_policy = policy (\<lambda>t. []) (\<lambda>t. [])"

definition publisher_required :: "unit externals" where
  "publisher_required =
     policy (\<lambda>t. if t = ''Book'' then [(''publisher'', RequiredBool True)] else []) (\<lambda>t. [])"

definition name_required :: "unit externals" where
  "name_required =
     policy (\<lambda>t. if t = ''Publisher'' then [(''name'', RequiredBool True)] else []) (\<lambda>t. [])"

definition isbn_predicate :: "unit externals" where
  "isbn_predicate =
     policy (\<lambda>t. if t = ''Book''
                  then [(''isbn'', RequiredPredicate (\<lambda>context requested. False))] else [])
            (\<lambda>t. [])"

definition publisher_ignored :: "unit externals" where
  "publisher_ignored =
     policy (\<lambda>t. if t = ''Publisher''
                  then [(''name'', RequiredBool True), (''address'', RequiredBool True),
                        (''books'', RequiredBool True)]
                  else [])
            (\<lambda>t. if t = ''Publisher''
                  then [(''name'', True), (''address'', True), (''books'', True)]
                  else [])"

definition id_ignored :: "unit externals" where
  "id_ignored =
     policy (\<lambda>t. if t = ''Author'' then [(''id'', RequiredBool True)] else [])
            (\<lambda>t. if t = ''Author'' then [(''id'', True)] else [])"

definition resolver :: "string option \<Rightarrow> nat option \<Rightarrow> GraphQLQueryResolver" where
  "resolver pk d =
     new_GraphQLQueryResolver dot_formatter \<lparr> primaryKeyColumn = pk, maxQueryDepth = d \<rparr>"

text \<open>
  A request that selects \<open>author\<close> twice at one level, once directly and once through
  a fragment:
  \<^verbatim>\<open>books { author(first: 3) { name } ...Extra }
  fragment Extra on Book { author(first: 5) { books } }\<close>
  Numbers stand as their text (\<open>parseFloat\<close> is the identity on strings here).
\<close>

definition example_info :: ResolveInfo where
  "example_info =
     \<lparr> fieldNodes =
         [FieldNode ''books'' None
            (Some [FieldNode ''author'' (Some [(''first'', IntValue ''3'')])
                     (Some [FieldNode ''name'' None None]),
                   FragmentSpread ''Extra''])],
       fragments =
         [(''Extra'',
           FragmentDefinition
             (Some [FieldNode ''author'' (Some [(''first'', IntValue ''5'')])
                      (Some [FieldNode ''books'' None None])]))] \<rparr>"

definition scalar :: "string Selection" where
  "scalar = Selection (Some []) (Some [])"

text \<open>
  A request whose root field is selected twice, so that \<open>info.fieldNodes\<close> has two
  nodes, and that selects the field \<open>field\<close> once directly and once through a fragment
  spread inside an inline fragment:
  \<^verbatim>\<open>results { field { name } } results { ... { ...Origin } }
  fragment Origin on Result { field { nationality } }\<close>
\<close>

definition results_info :: "string \<Rightarrow> ResolveInfo" where
  "results_info field =
     \<lparr> fieldNodes =
         [FieldNode ''results'' None
            (Some [FieldNode field None (Some [FieldNode ''name'' None None])]),
          FieldNode ''results'' None
            (Some [InlineFragment (Some [FragmentSpread ''Origin''])])],
       fragments =
         [(''Origin'',
           FragmentDefinition
             (Some [FieldNode field None (Some [FieldNode ''nationality'' None None])]))] \<rparr>"

section \<open>Auxiliary facts about the resolver\<close>

lemma fold_snoc: "fold (\<lambda>x acc. acc @ [g x]) xs q = q @ map g xs"
  by (induction xs arbitrary: q) auto

lemma selectPrimaryKey_append:
  "selectPrimaryKey this qb fs alias = qb @ selectPrimaryKey this [] fs alias"
  by (simp add: selectPrimaryKey_def split: option.splits)

lemma selectFields_append:
  "selectFields this qb fs alias =
     qb @ selectPrimaryKey this [] fs alias @ map (column_projection this alias) fs"
  unfolding selectFields_def column_projection_def
  by (subst selectPrimaryKey_append) (simp add: fold_snoc)

lemma selectEmbeddedFields_append:
  "selectEmbeddedFields this ext qb es ch meta alias =
     map_sum id ((@) qb) (selectEmbeddedFields this ext [] es ch meta alias)"
  by (simp add: selectEmbeddedFields_def fold_snoc split: sum.splits)

lemma selectEmbeddedFields_no_join:
  "selectEmbeddedFields this ext [] es ch meta alias = Inr ops \<Longrightarrow> filter is_join ops = []"
  by (auto simp: selectEmbeddedFields_def fold_snoc filter_empty_conv split: sum.splits)

lemma selectPrimaryKey_no_join: "filter is_join (selectPrimaryKey this [] fs alias) = []"
  by (simp add: selectPrimaryKey_def split: option.splits)

text \<open>\<open>createQuery\<close> on a node that has a children object, written as what it appends.\<close>

lemma createQuery_children:
  assumes "connection model = Some meta" and "children sel = Some ch"
  shows "createQuery this ext model (Some sel) connection qb alias context depth =
     (case selectEmbeddedFields this ext [] (createQuery_embeddedFields ext meta ch) ch meta alias of
        Inl e \<Rightarrow> Inl e
      | Inr emb \<Rightarrow>
          if enat depth < this_maxDepth this
          then selectRelations this ext
                 (qb @ selectPrimaryKey this [] (createQuery_fields ext meta ch) alias @
                  map (column_projection this alias) (createQuery_fields ext meta ch) @ emb)
                 ch (relations meta) alias meta connection depth
          else Inr (qb @ selectPrimaryKey this [] (createQuery_fields ext meta ch) alias @
                    map (column_projection this alias) (createQuery_fields ext meta ch) @ emb))"
  using assms
  by (subst createQuery.simps, subst selectEmbeddedFields_append)
     (simp add: selectFields_append split: sum.splits)

lemma createQuery_Inr_cases:
  assumes "createQuery this ext model selection connection qb alias context depth = Inr qb'"
  obtains (unchanged) "qb' = qb" "\<not> (\<exists>sel ch. selection = Some sel \<and> children sel = Some ch)"
  | (selected) meta sel ch where
      "connection model = Some meta" "selection = Some sel" "children sel = Some ch"
  using assms by (auto simp: createQuery.simps split: option.splits)

text \<open>
  The calls that \<open>createQuery\<close> appends do not depend on the builder it starts from, nor
  on the context argument: a run on any builder is the run on the empty builder, appended.
\<close>

lemma map_sum_append_append:
  "map_sum id ((@) (a @ b)) r = map_sum id ((@) a) (map_sum id ((@) b) r)"
  by (cases r) simp_all

lemma createQuery_frame_aux:
  fixes ext :: "'c externals" and selection :: "'n Selection option" and children' :: "'n Selection Hash"
  shows
  "\<forall>qb c. createQuery this ext model selection connection qb al c depth =
       map_sum id ((@) qb) (createQuery this ext model selection connection [] al ctx depth)"
  and "\<forall>qb. selectRelations this ext qb children' relations' al meta connection depth =
       map_sum id ((@) qb) (selectRelations this ext [] children' relations' al meta connection depth)"
  and "\<forall>qb. selectRelations_forEach this ext qb children' relations' al meta connection depth =
       map_sum id ((@) qb) (selectRelations_forEach this ext [] children' relations' al meta connection depth)"
proof (induction this ext model selection connection "queryBuilder :: qb_call list" al ctx depth
   and this ext "queryBuilder :: qb_call list" children' relations' al meta connection depth
   and this ext "queryBuilder :: qb_call list" children' relations' al meta connection depth
   rule: createQuery_selectRelations_selectRelations_forEach.induct)
  case (1 this ext model selection connection queryBuilder al ctx depth)
  show ?case
  proof (intro allI)
    fix qb c
    show "createQuery this ext model selection connection qb al c depth =
       map_sum id ((@) qb) (createQuery this ext model selection connection [] al ctx depth)"
    proof (cases "\<exists>meta sel ch. connection model = Some meta \<and> selection = Some sel \<and> children sel = Some ch")
      case False
      then show ?thesis
        by (auto simp: createQuery.simps split: option.splits)
    next
      case True
      then obtain meta sel ch where m: "connection model = Some meta" "selection = Some sel" "children sel = Some ch"
        by blast
      let ?X = "selectPrimaryKey this [] (createQuery_fields ext meta ch) al @
                  map (column_projection this al) (createQuery_fields ext meta ch)"
      show ?thesis
      proof (cases "selectEmbeddedFields this ext [] (createQuery_embeddedFields ext meta ch) ch meta al")
        case (Inl e)
        then show ?thesis using m by (simp add: createQuery_children)
      next
        case (Inr emb)
        show ?thesis
        proof (cases "enat depth < this_maxDepth this")
          case False
          then show ?thesis using m Inr by (simp add: createQuery_children)
        next
          case True
          have "selectEmbeddedFields this ext
                  (selectFields this queryBuilder (createQuery_fields ext meta ch) al)
                  (createQuery_embeddedFields ext meta ch) ch meta al =
                Inr (selectFields this queryBuilder (createQuery_fields ext meta ch) al @ emb)"
            by (subst selectEmbeddedFields_append) (simp add: Inr)
          note Q = "1.IH"[OF m(1) m(2) m(3) this True, rule_format]
          have "selectRelations this ext (qb @ ?X @ emb) ch (relations meta) al meta connection depth =
                map_sum id ((@) qb) (selectRelations this ext (?X @ emb) ch (relations meta) al meta connection depth)"
            by (subst Q, subst (2) Q) (simp only: map_sum_append_append append_assoc)
          then show ?thesis using m Inr True by (simp add: createQuery_children)
        qed
      qed
    qed
  qed
next
  case (2 this ext queryBuilder children' relations' al meta connection depth)
  show ?case unfolding selectRelations.simps by (rule "2.IH")
next
  case (3 this ext queryBuilder children' al meta connection depth)
  then show ?case by simp
next
  case (4 this ext queryBuilder children' relation rest al meta connection depth)
  define req where
    "req = truthy_required (map_of (getLoaderRequiredFields ext (target meta)) (rel_propertyName relation))"
  define ca where "ca = generateChildHash ext al (rel_propertyName relation) 10"
  define j where
    "j = (if req
          then LeftJoinAndSelect (columnSelection (this_formatter this) al (rel_propertyName relation)) ca
          else LeftJoin (columnSelection (this_formatter this) al (rel_propertyName relation)) ca)"
  define cq where
    "cq = (\<lambda>q. createQuery this ext (rel_inverseTarget relation)
                  (children_get children' (rel_propertyName relation)) connection q ca
                  (NumberContext (depth + 1)) 0)"
  have unfold_step:
    "selectRelations_forEach this ext q children' (relation # rest) al meta connection depth =
       (if hash_in (rel_propertyName relation) children' \<or> req
        then (case cq (q @ [j]) of
                Inl e \<Rightarrow> Inl e
              | Inr b \<Rightarrow> selectRelations_forEach this ext b children' rest al meta connection depth)
        else selectRelations_forEach this ext q children' rest al meta connection depth)" for q
    unfolding req_def ca_def j_def cq_def
    by (subst selectRelations_forEach.simps) (simp only: Let_def)
  show ?case
  proof (cases "hash_in (rel_propertyName relation) children' \<or> req")
    case False
    have skip: "selectRelations_forEach this ext q children' (relation # rest) al meta connection depth =
                selectRelations_forEach this ext q children' rest al meta connection depth" for q
      using False by (simp only: unfold_step if_False)
    show ?thesis
      unfolding skip by (rule "4.IH"(3)[OF refl False[unfolded req_def]])
  next
    case True
    note sel = True[unfolded req_def]
    have P: "cq q = map_sum id ((@) q) (cq [])" for q
      unfolding cq_def ca_def
      by (rule "4.IH"(1)[OF refl sel refl refl, rule_format])
    show ?thesis
    proof (cases "cq []")
      case (Inl e)
      have "cq q = Inl e" for q
        using P[of q] Inl by simp
      then show ?thesis
        using True by (simp add: unfold_step del: selectRelations_forEach.simps)
    next
      case (Inr c)
      have cq: "cq q = Inr (q @ c)" for q
        using P[of q] Inr by simp
      note R = "4.IH"(2)[OF refl sel refl refl
                  cq[of "queryBuilder @ [j]", unfolded cq_def ca_def j_def req_def], rule_format]
      have step: "selectRelations_forEach this ext q children' (relation # rest) al meta connection depth =
                  map_sum id ((@) (q @ [j] @ c))
                    (selectRelations_forEach this ext [] children' rest al meta connection depth)" for q
      proof -
        have "selectRelations_forEach this ext q children' (relation # rest) al meta connection depth =
              selectRelations_forEach this ext ((q @ [j]) @ c) children' rest al meta connection depth"
          using True by (simp add: unfold_step cq del: selectRelations_forEach.simps)
        also have "\<dots> = map_sum id ((@) ((q @ [j]) @ c))
                    (selectRelations_forEach this ext [] children' rest al meta connection depth)"
          by (rule R)
        finally show ?thesis by (simp only: append_assoc)
      qed
      show ?thesis
        by (simp only: step append_Nil)
           (cases "selectRelations_forEach this ext [] children' rest al meta connection depth"; simp)
    qed
  qed
qed

lemma createQuery_frame:
  "createQuery this ext model selection connection qb al c depth =
     map_sum id ((@) qb) (createQuery this ext model selection connection [] al c' depth)"
  by (rule createQuery_frame_aux(1)[rule_format])

lemma selectRelations_frame:
  "selectRelations this ext qb children' relations' al meta connection depth =
     map_sum id ((@) qb) (selectRelations this ext [] children' relations' al meta connection depth)"
  by (rule createQuery_frame_aux(2)[rule_format])

lemma selectRelations_forEach_frame:
  "selectRelations_forEach this ext qb children' relations' al meta connection depth =
     map_sum id ((@) qb)
       (selectRelations_forEach this ext [] children' relations' al meta connection depth)"
  by (rule createQuery_frame_aux(3)[rule_format])

lemma find_None_image: "(find (\<lambda>f. g f = k) xs = None) = (k \<notin> g ` set xs)"
  by (auto simp: find_None_iff)

lemma selectPrimaryKey_empty:
  "selectPrimaryKey this [] fs al =
     (case this_primaryKeyColumn this of
        None \<Rightarrow> []
      | Some pk \<Rightarrow>
          if pk = [] \<or> pk \<in> col_propertyName ` set fs then []
          else [AddSelect (columnSelection (this_formatter this) al pk)
                          (Some (aliasField (this_formatter this) al pk))])"
proof (cases "this_primaryKeyColumn this")
  case None
  then show ?thesis by (simp add: selectPrimaryKey_def)
next
  case (Some pk)
  show ?thesis
  proof (cases "find (\<lambda>field. col_propertyName field = pk) fs")
    case None
    then show ?thesis
      using Some by (simp add: selectPrimaryKey_def find_None_image[symmetric])
  next
    case (Some found)
    then have "pk \<in> col_propertyName ` set fs"
      using find_None_image[of col_propertyName pk fs] by simp
    then show ?thesis
      using Some \<open>this_primaryKeyColumn this = Some pk\<close> by (simp add: selectPrimaryKey_def)
  qed
qed

lemma createQuery_extends:
  "createQuery this ext model selection connection qb al c depth = Inr qb' \<Longrightarrow> \<exists>x. qb' = qb @ x"
  by (subst (asm) createQuery_frame[where c' = c]) (auto simp: map_sum_def split: sum.splits)

lemma selectRelations_forEach_extends:
  "selectRelations_forEach this ext qb ch rels al meta connection depth = Inr qb' \<Longrightarrow> \<exists>x. qb' = qb @ x"
  by (subst (asm) selectRelations_forEach_frame) (auto simp: map_sum_def split: sum.splits)

lemma hash_in_iff: "hash_in k h \<longleftrightarrow> map_of h k \<noteq> None \<or> k \<in> set object_prototype_names"
  by (auto simp: hash_in_def hash_lookup_def split: option.splits)

lemma selectEmbeddedFields_one_argument:
  "selectEmbeddedFields this ext [] es ch meta al = Inr ops \<Longrightarrow>
   filter is_column_projection ops = [] \<and> filter is_join ops = []"
  by (auto simp: selectEmbeddedFields_def fold_snoc filter_empty_conv split: sum.splits)

lemma selectRelations_forEach_append:
  "selectRelations_forEach this ext qb ch (xs @ ys) al meta connection depth =
     (case selectRelations_forEach this ext qb ch xs al meta connection depth of
        Inl e \<Rightarrow> Inl e
      | Inr q \<Rightarrow> selectRelations_forEach this ext q ch ys al meta connection depth)"
  by (induction xs arbitrary: qb) (auto simp: Let_def split: sum.splits)

section \<open>Selection nodes without children\<close>

text \<open>
  C4, as amended. For an entity the connection knows, \<open>createQuery\<close> returns the query
  builder unchanged when the selection is \<open>null\<close> or has no \<open>children\<close> object
  (\<open>children\<close> is \<open>undefined\<close>): no projection and no join is added.
\<close>

theorem createQuery_without_children_unchanged:
  assumes "connection model = Some meta"
    and "selection = None \<or> (\<exists>sel. selection = Some sel \<and> children sel = None)"
  shows "createQuery this ext model selection connection queryBuilder al c depth = Inr queryBuilder"
  using assms by (auto simp: createQuery.simps)

theorem createQuery_without_children_unchanged_witness:
  "createQuery (resolver None None) name_required ''Publisher'' (None :: unit Selection option) library
      [AddSelect ''x'' None] ''p'' (Context ()) 0 = Inr [AddSelect ''x'' None] \<and>
   createQuery (resolver None None) name_required ''Publisher''
      (Some (Selection (Some []) None :: unit Selection)) library
      [AddSelect ''x'' None] ''p'' (Context ()) 0 = Inr [AddSelect ''x'' None]"
proof -
  have m: "library ''Publisher'' = Some publisher_meta"
    by (simp add: library_def)
  show ?thesis
    using m
      createQuery_without_children_unchanged[where connection = library and model = "''Publisher''"
        and meta = publisher_meta and selection = "None :: unit Selection option"
        and ext = name_required]
      createQuery_without_children_unchanged[where connection = library and model = "''Publisher''"
        and meta = publisher_meta and selection = "Some (Selection (Some []) None :: unit Selection)"
        and ext = name_required]
    by simp
qed

text \<open>
  C4 as stated fails for a children object that is present and empty: \<open>{}\<close> is truthy,
  so the node is resolved like any other. On \<open>Publisher\<close>, whose column \<open>name\<close> is
  required, the selection \<open>{children: {}}\<close> projects the primary key and \<open>name\<close>.
\<close>

theorem createQuery_empty_children_counterexample:
  "children (Selection None (Some [])) = Some ([] :: (string \<times> unit Selection) list) \<and>
   createQuery (resolver None None) name_required ''Publisher'' (Some (Selection None (Some [])))
      library [] ''p'' (Context ()) 0 =
     Inr [AddSelect ''p.id'' (Some ''p_id''), AddSelect ''p.name'' (Some ''p_name'')]"
  by code_simp

section \<open>The depth limit\<close>

text \<open>
  C2, as amended. With \<open>maxDepth = 0\<close>, \<open>createQuery\<close> joins no relation at all: whatever
  it appends to the builder is a projection. The test \<open>depth < maxDepth\<close> guards the whole
  of \<open>_selectRelations\<close>, so relations required by policy are left out like the ones the
  client selected.
\<close>

theorem createQuery_maxDepth_zero_no_join:
  assumes "this_maxDepth this = 0"
    and "createQuery this ext model selection connection queryBuilder al c depth = Inr qb'"
  shows "\<exists>selects. qb' = queryBuilder @ selects \<and> filter is_join selects = []"
  using assms(2)
proof (cases rule: createQuery_Inr_cases)
  case unchanged
  then show ?thesis by simp
next
  case (selected meta sel ch)
  have "\<not> enat depth < this_maxDepth this"
    using assms(1) by simp
  with assms(2) selected obtain emb where
    emb: "selectEmbeddedFields this ext [] (createQuery_embeddedFields ext meta ch) ch meta al = Inr emb"
    and qb': "qb' = queryBuilder @ selectPrimaryKey this [] (createQuery_fields ext meta ch) al @
                    map (column_projection this al) (createQuery_fields ext meta ch) @ emb"
    by (auto simp: createQuery_children split: sum.splits)
  show ?thesis
    using qb' selectEmbeddedFields_no_join[OF emb] selectPrimaryKey_no_join
    by (auto simp: column_projection_def filter_empty_conv)
qed

theorem createQuery_maxDepth_zero_no_join_witness:
  "this_maxDepth (resolver None (Some 0)) = 0 \<and>
   createQuery (resolver None (Some 0)) publisher_required ''Book''
      (Some (Selection None (Some [(''title'', leaf), (''author'', leaf)])))
      library [] ''b'' (Context ()) 0 =
     Inr [AddSelect ''b.id'' (Some ''b_id''), AddSelect ''b.title'' (Some ''b_title'')] \<and>
   (\<exists>selects. [AddSelect ''b.id'' (Some ''b_id''), AddSelect ''b.title'' (Some ''b_title'')] = [] @ selects \<and>
      filter is_join selects = [])"
proof -
  have d: "this_maxDepth (resolver None (Some 0)) = 0"
    by (simp add: resolver_def new_GraphQLQueryResolver_def zero_enat_def)
  have r: "createQuery (resolver None (Some 0)) publisher_required ''Book''
      (Some (Selection None (Some [(''title'', leaf), (''author'', leaf)])))
      library [] ''b'' (Context ()) 0 =
     Inr [AddSelect ''b.id'' (Some ''b_id''), AddSelect ''b.title'' (Some ''b_title'')]"
    by code_simp
  show ?thesis
    using d r createQuery_maxDepth_zero_no_join[OF d r] by simp
qed

text \<open>
  C2 as stated fails: \<open>Book.publisher\<close> is required by policy and not ignored, and with
  \<open>maxDepth = 0\<close> it is not joined (the claim expects a \<open>leftJoinAndSelect\<close> of
  \<open>b.publisher\<close>).
\<close>

theorem createQuery_maxDepth_zero_required_counterexample:
  "truthy_required (map_of (getLoaderRequiredFields publisher_required ''Book'') ''publisher'') \<and>
   \<not> truthy_ignored (map_of (getLoaderIgnoredFields publisher_required ''Book'') ''publisher'') \<and>
   createQuery (resolver None (Some 0)) publisher_required ''Book''
      (Some (Selection None (Some [(''title'', leaf)]))) library [] ''b'' (Context ()) 0 =
     Inr [AddSelect ''b.id'' (Some ''b_id''), AddSelect ''b.title'' (Some ''b_title'')]"
  by code_simp

section \<open>Projected columns\<close>

text \<open>
  C5, as amended. For a known entity and a selection node with a children object, the
  calls \<open>createQuery\<close> appends are, in this order: the primary-key safeguard, one
  projection for each selected column in the order of the entity's columns, the
  projections of the embedded objects (calls with one argument), and what the relation
  pass appends. The selected columns are exactly the columns that are not ignored and
  that are primary, or pass the test \<open>propertyName in children\<close>, or are truthy in the
  required-fields map. The test \<open>in\<close> holds for a key of the children and also for a
  name that every object inherits from \<open>Object.prototype\<close>. The safeguard is empty unless
  the option \<open>primaryKeyColumn\<close> is a non-empty name that no selected column has; then it
  projects that name, whatever the policy says about it.
\<close>

theorem createQuery_projects_selected_columns:
  assumes "connection model = Some meta" and "children sel = Some ch"
    and "createQuery this ext model (Some sel) connection qb al c depth = Inr qb'"
  shows "let selected =
           filter (\<lambda>f. \<not> truthy_ignored (map_of (getLoaderIgnoredFields ext (target meta)) (col_propertyName f)) \<and>
                     (col_isPrimary f \<or>
                      map_of ch (col_propertyName f) \<noteq> None \<or>
                      col_propertyName f \<in> set object_prototype_names \<or>
                      truthy_required (map_of (getLoaderRequiredFields ext (target meta)) (col_propertyName f))))
                  (columns meta);
             safeguard =
               (case this_primaryKeyColumn this of
                  None \<Rightarrow> []
                | Some pk \<Rightarrow>
                    if pk = [] \<or> pk \<in> col_propertyName ` set selected then []
                    else [AddSelect (columnSelection (this_formatter this) al pk)
                                    (Some (aliasField (this_formatter this) al pk))])
         in \<exists>emb rels.
              qb' = qb @ safeguard @ map (column_projection this al) selected @ emb @ rels \<and>
              selectEmbeddedFields this ext [] (createQuery_embeddedFields ext meta ch) ch meta al = Inr emb \<and>
              filter is_column_projection emb = [] \<and>
              (if enat depth < this_maxDepth this
               then selectRelations this ext [] ch (relations meta) al meta connection depth = Inr rels
               else rels = [])"
proof -
  let ?fs = "createQuery_fields ext meta ch"
  let ?pk = "selectPrimaryKey this [] ?fs al"
  let ?cols = "map (column_projection this al) ?fs"
  from assms obtain emb where
    emb: "selectEmbeddedFields this ext [] (createQuery_embeddedFields ext meta ch) ch meta al = Inr emb"
    and run: "(if enat depth < this_maxDepth this
               then selectRelations this ext (qb @ ?pk @ ?cols @ emb) ch (relations meta) al meta connection depth
               else Inr (qb @ ?pk @ ?cols @ emb)) = Inr qb'"
    by (auto simp: createQuery_children split: sum.splits)
  have "\<exists>rels. qb' = qb @ ?pk @ ?cols @ emb @ rels \<and>
          (if enat depth < this_maxDepth this
           then selectRelations this ext [] ch (relations meta) al meta connection depth = Inr rels
           else rels = [])"
  proof (cases "enat depth < this_maxDepth this")
    case False
    then show ?thesis using run by auto
  next
    case True
    with run have "selectRelations this ext (qb @ ?pk @ ?cols @ emb) ch (relations meta) al meta connection depth = Inr qb'"
      by simp
    then obtain rels where
      "selectRelations this ext [] ch (relations meta) al meta connection depth = Inr rels"
      "qb' = (qb @ ?pk @ ?cols @ emb) @ rels"
      by (subst (asm) selectRelations_frame)
         (cases "selectRelations this ext [] ch (relations meta) al meta connection depth"; auto)
    then show ?thesis using True by auto
  qed
  then obtain rels where rels: "qb' = qb @ ?pk @ ?cols @ emb @ rels"
    "(if enat depth < this_maxDepth this
           then selectRelations this ext [] ch (relations meta) al meta connection depth = Inr rels
           else rels = [])"
    by blast
  have fs: "?fs =
      filter (\<lambda>f. \<not> truthy_ignored (map_of (getLoaderIgnoredFields ext (target meta)) (col_propertyName f)) \<and>
                     (col_isPrimary f \<or>
                      map_of ch (col_propertyName f) \<noteq> None \<or>
                      col_propertyName f \<in> set object_prototype_names \<or>
                      truthy_required (map_of (getLoaderRequiredFields ext (target meta)) (col_propertyName f))))
                  (columns meta)"
    by (simp add: createQuery_fields_def hash_in_iff disj_ac)
  show ?thesis
    unfolding Let_def fs[symmetric] selectPrimaryKey_empty[symmetric]
    using rels emb selectEmbeddedFields_one_argument[OF emb] by blast
qed

theorem createQuery_projects_selected_columns_witness:
  "library ''Review'' = Some review_meta \<and>
   createQuery (resolver None None) no_policy ''Review'' (Some (Selection None (Some [(''text'', leaf)])))
      library [] ''r'' (Context ()) 0 =
     Inr [AddSelect ''r.reviewId'' (Some ''r_reviewId''), AddSelect ''r.text'' (Some ''r_text'')] \<and>
   (\<exists>emb rels.
       [AddSelect ''r.reviewId'' (Some ''r_reviewId''), AddSelect ''r.text'' (Some ''r_text'')] =
         [] @ [] @ map (column_projection (resolver None None) ''r'')
                       [column ''reviewId'' True, column ''text'' False] @ emb @ rels \<and>
       filter is_column_projection emb = [])"
proof -
  have m: "library ''Review'' = Some review_meta"
    by (simp add: library_def)
  have c: "children (Selection None (Some [(''text'', leaf)])) = Some [(''text'', leaf)]"
    by simp
  have r: "createQuery (resolver None None) no_policy ''Review''
      (Some (Selection None (Some [(''text'', leaf)]))) library [] ''r'' (Context ()) 0 =
     Inr [AddSelect ''r.reviewId'' (Some ''r_reviewId''), AddSelect ''r.text'' (Some ''r_text'')]"
    by code_simp
  have f: "filter (\<lambda>f. \<not> truthy_ignored (map_of (getLoaderIgnoredFields no_policy (target review_meta)) (col_propertyName f)) \<and>
                     (col_isPrimary f \<or>
                      map_of [(''text'', leaf)] (col_propertyName f) \<noteq> None \<or>
                      col_propertyName f \<in> set object_prototype_names \<or>
                      truthy_required (map_of (getLoaderRequiredFields no_policy (target review_meta)) (col_propertyName f))))
                  (columns review_meta) = [column ''reviewId'' True, column ''text'' False]"
    by code_simp
  have p: "this_primaryKeyColumn (resolver None None) = None"
    by (simp add: resolver_def new_GraphQLQueryResolver_def)
  from createQuery_projects_selected_columns[where connection = library and meta = review_meta, OF m c r]
  show ?thesis
    unfolding Let_def f p using m r by auto
qed

text \<open>
  C5 as stated fails in two ways. With \<open>primaryKeyColumn = "id"\<close>, \<open>Review\<close> (primary key
  \<open>reviewId\<close>) and the selection \<open>{text}\<close>, the safeguard projects the column \<open>id\<close>,
  which is not primary, not a key of the children and not required. And on \<open>Thing\<close> the
  selection \<open>{label}\<close> projects the column \<open>constructor\<close>, which is no key of the children
  either: \<open>"constructor" in children\<close> holds by inheritance.
\<close>

theorem createQuery_primaryKeyColumn_counterexample:
  "createQuery (resolver (Some ''id'') None) no_policy ''Review''
      (Some (Selection None (Some [(''text'', leaf)]))) library [] ''r'' (Context ()) 0 =
     Inr [AddSelect ''r.id'' (Some ''r_id''), AddSelect ''r.reviewId'' (Some ''r_reviewId''),
          AddSelect ''r.text'' (Some ''r_text'')] \<and>
   columns review_meta = [column ''reviewId'' True, column ''id'' False, column ''text'' False] \<and>
   \<not> col_isPrimary (column ''id'' False) \<and>
   map_of [(''text'', leaf)] ''id'' = None \<and>
   \<not> truthy_required (map_of (getLoaderRequiredFields no_policy ''Review'') ''id'') \<and>
   createQuery (resolver None None) no_policy ''Thing''
      (Some (Selection None (Some [(''label'', leaf)]))) library [] ''t'' (Context ()) 0 =
     Inr [AddSelect ''t.id'' (Some ''t_id''), AddSelect ''t.constructor'' (Some ''t_constructor''),
          AddSelect ''t.label'' (Some ''t_label'')] \<and>
   columns thing_meta = [column ''id'' True, column ''constructor'' False, column ''label'' False] \<and>
   \<not> col_isPrimary (column ''constructor'' False) \<and>
   map_of [(''label'', leaf)] ''constructor'' = None \<and>
   \<not> truthy_required (map_of (getLoaderRequiredFields no_policy ''Thing'') ''constructor'')"
  by code_simp

section \<open>Ignored properties\<close>

lemma target_strip [simp]: "target (strip_ignored ext meta) = target meta"
  by (simp add: strip_ignored_def)

lemma createQuery_fields_strip [simp]:
  "createQuery_fields ext (strip_ignored ext meta) ch = createQuery_fields ext meta ch"
  by (auto simp: createQuery_fields_def strip_ignored_def not_ignored_def intro: filter_cong)

lemma createQuery_embeddedFields_strip [simp]:
  "createQuery_embeddedFields ext (strip_ignored ext meta) ch = createQuery_embeddedFields ext meta ch"
  by (auto simp: createQuery_embeddedFields_def strip_ignored_def not_ignored_def intro: filter_cong)

lemma embeddedFieldToSelect_target:
  "target meta' = target meta \<Longrightarrow>
   embeddedFieldToSelect ext ch meta' e = embeddedFieldToSelect ext ch meta e"
  by (simp add: embeddedFieldToSelect_def)

lemma embeddedFieldsToSelect_target:
  assumes "target meta' = target meta"
  shows "embeddedFieldsToSelect ext ch meta' es = embeddedFieldsToSelect ext ch meta es"
proof (induction es)
  case Nil
  show ?case by simp
next
  case (Cons e es)
  show ?case
    by (simp only: embeddedFieldsToSelect.simps embeddedFieldToSelect_target[OF assms] Cons.IH)
qed

lemma selectEmbeddedFields_strip [simp]:
  "selectEmbeddedFields this ext qb es ch (strip_ignored ext meta) al =
   selectEmbeddedFields this ext qb es ch meta al"
  by (simp add: selectEmbeddedFields_def embeddedFieldsToSelect_target[of "strip_ignored ext meta" meta])

lemma relations_strip:
  "filter (\<lambda>relation. \<not> truthy_ignored
             (map_of (getLoaderIgnoredFields ext (target meta)) (rel_propertyName relation)))
          (relations (strip_ignored ext meta)) =
   filter (\<lambda>relation. \<not> truthy_ignored
             (map_of (getLoaderIgnoredFields ext (target meta)) (rel_propertyName relation)))
          (relations meta)"
  by (auto simp: strip_ignored_def not_ignored_def intro: filter_cong)

lemma relations_strip_eq:
  "relations (strip_ignored ext meta) =
   filter (\<lambda>relation. \<not> truthy_ignored
             (map_of (getLoaderIgnoredFields ext (target meta)) (rel_propertyName relation)))
          (relations meta)"
  by (simp add: strip_ignored_def not_ignored_def)

lemma strip_aux:
  fixes ext :: "'c externals" and selection :: "'n Selection option" and children' :: "'n Selection Hash"
  shows
  "createQuery this ext model selection connection queryBuilder al ctx depth =
     createQuery this ext model selection (strip_connection ext connection) queryBuilder al ctx depth"
  and "selectRelations this ext queryBuilder children' relations' al meta connection depth =
     selectRelations this ext queryBuilder children'
       (filter (\<lambda>relation. \<not> truthy_ignored
                  (map_of (getLoaderIgnoredFields ext (target meta)) (rel_propertyName relation)))
               relations')
       al (strip_ignored ext meta) (strip_connection ext connection) depth"
  and "selectRelations_forEach this ext queryBuilder children' relations' al meta connection depth =
     selectRelations_forEach this ext queryBuilder children' relations' al (strip_ignored ext meta)
       (strip_connection ext connection) depth"
proof (induction this ext model selection connection queryBuilder al ctx depth
   and this ext queryBuilder children' relations' al meta connection depth
   and this ext queryBuilder children' relations' al meta connection depth
   rule: createQuery_selectRelations_selectRelations_forEach.induct)
  case (1 this ext model selection connection queryBuilder al ctx depth)
  show ?case
  proof (cases "\<exists>meta sel ch. connection model = Some meta \<and> selection = Some sel \<and> children sel = Some ch")
    case False
    then show ?thesis
      by (auto simp: createQuery.simps strip_connection_def split: option.splits)
  next
    case True
    then obtain meta sel ch where m: "connection model = Some meta" "selection = Some sel" "children sel = Some ch"
      by blast
    have m': "strip_connection ext connection model = Some (strip_ignored ext meta)"
      using m(1) by (simp add: strip_connection_def)
    show ?thesis
    proof (cases "selectEmbeddedFields this ext
                    (selectFields this queryBuilder (createQuery_fields ext meta ch) al)
                    (createQuery_embeddedFields ext meta ch) ch meta al")
      case (Inl e)
      then show ?thesis using m m'
        by (simp add: createQuery.simps)
    next
      case (Inr b)
      show ?thesis
      proof (cases "enat depth < this_maxDepth this")
        case False
        then show ?thesis using m m' Inr
          by (simp add: createQuery.simps)
      next
        case True
        note Q = "1.IH"[OF m(1) m(2) m(3) Inr True]
        show ?thesis using m m' Inr True
          by (simp add: createQuery.simps Q relations_strip_eq)
      qed
    qed
  qed
next
  case (2 this ext queryBuilder children' relations' al meta connection depth)
  have idem: "filter (\<lambda>relation. \<not> truthy_ignored
             (map_of (getLoaderIgnoredFields ext (target meta)) (rel_propertyName relation)))
          (filter (\<lambda>relation. \<not> truthy_ignored
             (map_of (getLoaderIgnoredFields ext (target meta)) (rel_propertyName relation))) relations') =
        filter (\<lambda>relation. \<not> truthy_ignored
             (map_of (getLoaderIgnoredFields ext (target meta)) (rel_propertyName relation))) relations'"
    by simp
  show ?case
    unfolding selectRelations.simps target_strip idem by (rule "2.IH")
next
  case (3 this ext queryBuilder children' al meta connection depth)
  show ?case by simp
next
  case (4 this ext queryBuilder children' relation rest al meta connection depth)
  define req where
    "req = truthy_required (map_of (getLoaderRequiredFields ext (target meta)) (rel_propertyName relation))"
  define ca where "ca = generateChildHash ext al (rel_propertyName relation) 10"
  define j where
    "j = (if req
          then LeftJoinAndSelect (columnSelection (this_formatter this) al (rel_propertyName relation)) ca
          else LeftJoin (columnSelection (this_formatter this) al (rel_propertyName relation)) ca)"
  define cq where
    "cq = (\<lambda>conn. createQuery this ext (rel_inverseTarget relation)
                  (children_get children' (rel_propertyName relation)) conn (queryBuilder @ [j]) ca
                  (NumberContext (depth + 1)) 0)"
  have unfold_step:
    "selectRelations_forEach this ext queryBuilder children' (relation # rest) al m conn depth =
       (if hash_in (rel_propertyName relation) children' \<or> req
        then (case cq conn of
                Inl e \<Rightarrow> Inl e
              | Inr b \<Rightarrow> selectRelations_forEach this ext b children' rest al m conn depth)
        else selectRelations_forEach this ext queryBuilder children' rest al m conn depth)"
    if "target m = target meta" for m conn
    unfolding req_def ca_def j_def cq_def
    by (subst selectRelations_forEach.simps) (simp only: Let_def that)
  let ?meta' = "strip_ignored ext meta"
  let ?conn' = "strip_connection ext connection"
  have t: "target ?meta' = target meta" by simp
  show ?case
  proof (cases "hash_in (rel_propertyName relation) children' \<or> req")
    case False
    note R = "4.IH"(3)[OF refl False[unfolded req_def]]
    show ?thesis
      using False by (simp only: unfold_step[OF refl] unfold_step[OF t] if_False R)
  next
    case True
    note sel = True[unfolded req_def]
    have P: "cq connection = cq ?conn'"
      unfolding cq_def ca_def j_def req_def
      by (rule "4.IH"(1)[OF refl sel refl refl])
    show ?thesis
    proof (cases "cq connection")
      case (Inl e)
      have Inl': "cq ?conn' = Inl e" using P Inl by simp
      show ?thesis
        using True by (simp only: unfold_step[OF refl] unfold_step[OF t] if_True Inl Inl' sum.case)
    next
      case (Inr b)
      note R = "4.IH"(2)[OF refl sel refl refl Inr[unfolded cq_def ca_def j_def req_def]]
      have Inr': "cq ?conn' = Inr b" using P Inr by simp
      show ?thesis
        using True by (simp only: unfold_step[OF refl] unfold_step[OF t] if_True Inr Inr' sum.case R)
    qed
  qed
qed




section \<open>Child aliases\<close>

text \<open>
  C8. The alias of a joined relation is \<open>_generateChildHash(alias, propertyName, 10)\<close>:
  the first 10 characters of the hexadecimal MD5 digest of \<open>alias__propertyName\<close>, so it
  is a function of the parent alias and the property name alone, and the join call that
  \<open>_selectRelations\<close> appends for a relation carries it. Resolving the same selection
  against the same entity from the same root alias appends the same calls, with the same
  aliases, whatever builder and context the run starts with.
\<close>

theorem child_alias_deterministic:
  assumes "createQuery this ext model selection connection qb1 al c1 depth = Inr r1"
  shows "createQuery this ext model selection connection qb2 al c2 depth =
           Inr (qb2 @ drop (length qb1) r1) \<and>
         generateChildHash ext al p 10 = take 10 (md5_hex ext (al @ ''__'' @ p)) \<and>
         length (generateChildHash ext al p 10) = min 10 (length (md5_hex ext (al @ ''__'' @ p))) \<and>
         (\<forall>r rest ch meta q q' d.
            (hash_in (rel_propertyName r) ch \<or>
             truthy_required (map_of (getLoaderRequiredFields ext (target meta)) (rel_propertyName r))) \<longrightarrow>
            selectRelations_forEach this ext q ch (r # rest) al meta connection d = Inr q' \<longrightarrow>
            join_alias (q' ! length q) = Some (generateChildHash ext al (rel_propertyName r) 10))"
proof -
  have run: "createQuery this ext model selection connection qb2 al c2 depth =
           Inr (qb2 @ drop (length qb1) r1)"
  proof -
    from assms obtain x where x: "createQuery this ext model selection connection [] al c1 depth = Inr x"
      and r1: "r1 = qb1 @ x"
      by (subst (asm) createQuery_frame[where c' = c1])
         (cases "createQuery this ext model selection connection [] al c1 depth"; auto)
    show ?thesis
      by (subst createQuery_frame[where c' = c1]) (simp add: x r1)
  qed
  have joins: "join_alias (q' ! length q) = Some (generateChildHash ext al (rel_propertyName r) 10)"
    if sel: "hash_in (rel_propertyName r) ch \<or>
             truthy_required (map_of (getLoaderRequiredFields ext (target meta)) (rel_propertyName r))"
      and res: "selectRelations_forEach this ext q ch (r # rest) al meta connection d = Inr q'"
    for r rest ch meta q q' d
  proof -
    define j where "j = (if truthy_required (map_of (getLoaderRequiredFields ext (target meta)) (rel_propertyName r))
          then LeftJoinAndSelect (columnSelection (this_formatter this) al (rel_propertyName r))
                 (generateChildHash ext al (rel_propertyName r) 10)
          else LeftJoin (columnSelection (this_formatter this) al (rel_propertyName r))
                 (generateChildHash ext al (rel_propertyName r) 10))"
    have ja: "join_alias j = Some (generateChildHash ext al (rel_propertyName r) 10)"
      by (simp add: j_def)
    from res sel obtain b where
      b: "createQuery this ext (rel_inverseTarget r) (children_get ch (rel_propertyName r)) connection
            (q @ [j]) (generateChildHash ext al (rel_propertyName r) 10) (NumberContext (d + 1)) 0 = Inr b"
      and rest: "selectRelations_forEach this ext b ch rest al meta connection d = Inr q'"
      by (auto simp: Let_def j_def split: sum.splits if_splits)
    from createQuery_extends[OF b] obtain x where "b = (q @ [j]) @ x" by blast
    moreover from selectRelations_forEach_extends[OF rest] obtain y where "q' = b @ y" by blast
    ultimately have "q' = q @ j # (x @ y)" by simp
    then show ?thesis using ja by simp
  qed
  have formula: "generateChildHash ext al p 10 = take 10 (md5_hex ext (al @ ''__'' @ p))"
    by (simp add: generateChildHash_def)
  have len: "length (generateChildHash ext al p 10) = min 10 (length (md5_hex ext (al @ ''__'' @ p)))"
    by (simp add: generateChildHash_def min.commute)
  show ?thesis
    by (intro conjI allI impI) (rule run formula len joins | assumption)+
qed

theorem child_alias_deterministic_witness:
  "createQuery (resolver None None) no_policy ''Book''
      (Some (Selection None (Some [(''author'', Selection (Some []) (Some [(''name'', leaf)]))])))
      library [] ''b'' (Context ()) 0 =
     Inr [AddSelect ''b.id'' (Some ''b_id''), LeftJoin ''b.author'' ''3030303030'',
          AddSelect ''3030303030.id'' (Some ''3030303030_id''),
          AddSelect ''3030303030.name'' (Some ''3030303030_name'')] \<and>
   createQuery (resolver None None) no_policy ''Book''
      (Some (Selection None (Some [(''author'', Selection (Some []) (Some [(''name'', leaf)]))])))
      library [AddSelect ''x'' None] ''b'' (NumberContext 7) 0 =
     Inr [AddSelect ''x'' None,
          AddSelect ''b.id'' (Some ''b_id''), LeftJoin ''b.author'' ''3030303030'',
          AddSelect ''3030303030.id'' (Some ''3030303030_id''),
          AddSelect ''3030303030.name'' (Some ''3030303030_name'')] \<and>
   generateChildHash no_policy ''b'' ''author'' 10 = ''3030303030''"
proof -
  have r: "createQuery (resolver None None) no_policy ''Book''
      (Some (Selection None (Some [(''author'', Selection (Some []) (Some [(''name'', leaf)]))])))
      library [] ''b'' (Context ()) 0 =
     Inr [AddSelect ''b.id'' (Some ''b_id''), LeftJoin ''b.author'' ''3030303030'',
          AddSelect ''3030303030.id'' (Some ''3030303030_id''),
          AddSelect ''3030303030.name'' (Some ''3030303030_name'')]"
    by code_simp
  have h: "generateChildHash no_policy ''b'' ''author'' 10 = ''3030303030''"
    by code_simp
  have s: "createQuery (resolver None None) no_policy ''Book''
      (Some (Selection None (Some [(''author'', Selection (Some []) (Some [(''name'', leaf)]))])))
      library [AddSelect ''x'' None] ''b'' (NumberContext 7) 0 =
     Inr ([AddSelect ''x'' None] @ drop (length ([] :: qb_call list))
          [AddSelect ''b.id'' (Some ''b_id''), LeftJoin ''b.author'' ''3030303030'',
           AddSelect ''3030303030.id'' (Some ''3030303030_id''),
           AddSelect ''3030303030.name'' (Some ''3030303030_name'')])"
    by (rule child_alias_deterministic[OF r, THEN conjunct1])
  show ?thesis using r h s by simp
qed

section \<open>The depth of a recursive call\<close>

lemma selectFields_maxDepth [simp]:
  "selectFields (this\<lparr>this_maxDepth := m\<rparr>) qb fs al = selectFields this qb fs al"
  by (simp add: selectFields_def selectPrimaryKey_def split: option.splits)

lemma selectEmbeddedFields_maxDepth [simp]:
  "selectEmbeddedFields (this\<lparr>this_maxDepth := m\<rparr>) ext qb es ch meta al =
   selectEmbeddedFields this ext qb es ch meta al"
  by (simp add: selectEmbeddedFields_def split: sum.splits)

text \<open>
  Since the nested calls run at depth 0, a limit of 1 or more stops nothing: from the
  root at depth 0 the resolver does what it does without a limit.
\<close>

lemma nested_depth_is_zero_aux:
  fixes ext :: "'c externals" and selection :: "'n Selection option" and children' :: "'n Selection Hash"
  shows
  "depth = 0 \<longrightarrow> 0 < this_maxDepth this \<longrightarrow>
     createQuery this ext model selection connection queryBuilder al ctx depth =
     createQuery (this\<lparr>this_maxDepth := \<infinity>\<rparr>) ext model selection connection queryBuilder al ctx depth"
  and "0 < this_maxDepth this \<longrightarrow>
     selectRelations this ext queryBuilder children' relations' al meta connection depth =
     selectRelations (this\<lparr>this_maxDepth := \<infinity>\<rparr>) ext queryBuilder children' relations' al meta connection depth"
  and "0 < this_maxDepth this \<longrightarrow>
     selectRelations_forEach this ext queryBuilder children' relations' al meta connection depth =
     selectRelations_forEach (this\<lparr>this_maxDepth := \<infinity>\<rparr>) ext queryBuilder children' relations' al meta connection depth"
proof (induction this ext model selection connection queryBuilder al ctx depth
   and this ext queryBuilder children' relations' al meta connection depth
   and this ext queryBuilder children' relations' al meta connection depth
   rule: createQuery_selectRelations_selectRelations_forEach.induct)
  case (1 this ext model selection connection queryBuilder al ctx depth)
  show ?case
  proof (intro impI)
    assume d: "depth = 0" and pos: "0 < this_maxDepth this"
    have lt: "enat depth < this_maxDepth this"
      using d pos by (simp add: zero_enat_def)
    show "createQuery this ext model selection connection queryBuilder al ctx depth =
     createQuery (this\<lparr>this_maxDepth := \<infinity>\<rparr>) ext model selection connection queryBuilder al ctx depth"
    proof (cases "\<exists>meta sel ch. connection model = Some meta \<and> selection = Some sel \<and> children sel = Some ch")
      case False
      then show ?thesis
        by (auto simp: createQuery.simps split: option.splits)
    next
      case True
      then obtain meta sel ch where m: "connection model = Some meta" "selection = Some sel" "children sel = Some ch"
        by blast
      show ?thesis
      proof (cases "selectEmbeddedFields this ext
                      (selectFields this queryBuilder (createQuery_fields ext meta ch) al)
                      (createQuery_embeddedFields ext meta ch) ch meta al")
        case (Inl e)
        then show ?thesis using m
          by (simp add: createQuery.simps)
      next
        case (Inr b)
        from "1.IH"[OF m(1) m(2) m(3) Inr lt] pos
        have "selectRelations this ext b ch (relations meta) al meta connection depth =
              selectRelations (this\<lparr>this_maxDepth := \<infinity>\<rparr>) ext b ch (relations meta) al meta connection depth"
          by simp
        then show ?thesis using m Inr lt
          by (simp add: createQuery.simps)
      qed
    qed
  qed
next
  case (2 this ext queryBuilder children' relations' al meta connection depth)
  then show ?case
    by (simp only: selectRelations.simps)
next
  case (3 this ext queryBuilder children' al meta connection depth)
  show ?case by simp
next
  case (4 this ext queryBuilder children' relation rest al meta connection depth)
  define req where
    "req = truthy_required (map_of (getLoaderRequiredFields ext (target meta)) (rel_propertyName relation))"
  define ca where "ca = generateChildHash ext al (rel_propertyName relation) 10"
  define j where
    "j = (if req
          then LeftJoinAndSelect (columnSelection (this_formatter this) al (rel_propertyName relation)) ca
          else LeftJoin (columnSelection (this_formatter this) al (rel_propertyName relation)) ca)"
  define cq where
    "cq = (\<lambda>t. createQuery t ext (rel_inverseTarget relation)
                  (children_get children' (rel_propertyName relation)) connection (queryBuilder @ [j]) ca
                  (NumberContext (depth + 1)) 0)"
  have unfold_step:
    "selectRelations_forEach t ext queryBuilder children' (relation # rest) al meta connection depth =
       (if hash_in (rel_propertyName relation) children' \<or> req
        then (case cq t of
                Inl e \<Rightarrow> Inl e
              | Inr b \<Rightarrow> selectRelations_forEach t ext b children' rest al meta connection depth)
        else selectRelations_forEach t ext queryBuilder children' rest al meta connection depth)"
    if "this_formatter t = this_formatter this" for t
    unfolding req_def ca_def j_def cq_def
    by (subst selectRelations_forEach.simps) (simp only: Let_def that)
  show ?case
  proof (intro impI)
    assume pos: "0 < this_maxDepth this"
    let ?this' = "this\<lparr>this_maxDepth := \<infinity>\<rparr>"
    have f: "this_formatter ?this' = this_formatter this" by simp
    show "selectRelations_forEach this ext queryBuilder children' (relation # rest) al meta connection depth =
          selectRelations_forEach ?this' ext queryBuilder children' (relation # rest) al meta connection depth"
    proof (cases "hash_in (rel_propertyName relation) children' \<or> req")
      case False
      from "4.IH"(3)[OF refl False[unfolded req_def]] pos
      have "selectRelations_forEach this ext queryBuilder children' rest al meta connection depth =
            selectRelations_forEach ?this' ext queryBuilder children' rest al meta connection depth"
        by simp
      then show ?thesis
        using False by (simp only: unfold_step[OF refl] unfold_step[OF f] if_False)
    next
      case True
      note sel = True[unfolded req_def]
      have P: "cq this = cq ?this'"
        unfolding cq_def ca_def j_def req_def
        using "4.IH"(1)[OF refl sel refl refl] pos by simp
      show ?thesis
      proof (cases "cq this")
        case (Inl e)
        have Inl': "cq ?this' = Inl e" using P Inl by simp
        show ?thesis
          using True by (simp only: unfold_step[OF refl] unfold_step[OF f] if_True Inl Inl' sum.case)
      next
        case (Inr b)
        from "4.IH"(2)[OF refl sel refl refl Inr[unfolded cq_def ca_def j_def req_def]] pos
        have eq: "selectRelations_forEach this ext b children' rest al meta connection depth =
              selectRelations_forEach ?this' ext b children' rest al meta connection depth"
          by simp
        have Inr': "cq ?this' = Inr b" using P Inr by simp
        show ?thesis
          using True by (simp only: unfold_step[OF refl] unfold_step[OF f] if_True Inr Inr' sum.case eq)
      qed
    qed
  qed
qed

lemma createQuery_positive_maxDepth_unbounded:
  "0 < this_maxDepth this \<Longrightarrow>
   createQuery this ext model selection connection qb al c 0 =
   createQuery (this\<lparr>this_maxDepth := \<infinity>\<rparr>) ext model selection connection qb al c 0"
  by (rule nested_depth_is_zero_aux(1)[rule_format, OF refl])

text \<open>
  C1 fails on the code. \<open>_selectRelations\<close> passes \<open>depth + 1\<close> in the position of
  \<open>context\<close>, so every nested \<open>createQuery\<close> runs with \<open>depth = 0\<close> and the test
  \<open>depth < maxDepth\<close> never stops a nested level. With \<open>maxDepth = 1\<close> the request
  \<open>Author { books { publisher { name } } }\<close> joins \<open>books\<close> (depth 0) and also
  \<open>publisher\<close>, which lies at depth 1 below the root.
\<close>

theorem createQuery_joins_below_maxDepth:
  "createQuery (resolver None (Some 1)) no_policy ''Author''
      (Some (Selection None
         (Some [(''books'', Selection (Some [])
                   (Some [(''publisher'', Selection (Some []) (Some [(''name'', leaf)]))]))])))
      library [] ''a'' (Context ()) 0 =
     Inr [AddSelect ''a.id'' (Some ''a_id''),
          LeftJoin ''a.books'' ''d5d5d5d5d5'',
          AddSelect ''d5d5d5d5d5.id'' (Some ''d5d5d5d5d5_id''),
          LeftJoin ''d5d5d5d5d5.publisher'' ''9292929292'',
          AddSelect ''9292929292.id'' (Some ''9292929292_id''),
          AddSelect ''9292929292.name'' (Some ''9292929292_name'')]"
  by code_simp

section \<open>Required relations\<close>

text \<open>
  C3, as amended. A relation of a known entity that the policy marks required and does
  not ignore is joined, within the depth limit, by \<open>leftJoinAndSelect\<close> under its child
  alias. After the join \<open>createQuery\<close> is called on the client's sub-node for that
  relation, as for every joined relation, and what it appends follows the join. When the
  client did not select the relation, or selected it without children, nothing is added
  under it; when the client selected it with children, their columns and nested joins are
  resolved under the child alias.
\<close>

theorem required_relation_joined_and_resolved:
  assumes "connection model = Some meta" and "children sel = Some ch"
    and "enat depth < this_maxDepth this"
    and "r \<in> set (relations meta)"
    and "\<not> truthy_ignored (map_of (getLoaderIgnoredFields ext (target meta)) (rel_propertyName r))"
    and "truthy_required (map_of (getLoaderRequiredFields ext (target meta)) (rel_propertyName r))"
    and "createQuery this ext model (Some sel) connection qb al c depth = Inr qb'"
  shows "\<exists>before nested after.
      qb' = before @
            LeftJoinAndSelect (columnSelection (this_formatter this) al (rel_propertyName r))
                              (generateChildHash ext al (rel_propertyName r) 10) #
            nested @ after \<and>
      createQuery this ext (rel_inverseTarget r) (children_get ch (rel_propertyName r)) connection []
        (generateChildHash ext al (rel_propertyName r) 10) (NumberContext (depth + 1)) 0 = Inr nested \<and>
      ((\<forall>s. children_get ch (rel_propertyName r) = Some s \<longrightarrow> children s = None) \<longrightarrow> nested = [])"
proof -
  let ?ign = "\<lambda>relation. \<not> truthy_ignored
                (map_of (getLoaderIgnoredFields ext (target meta)) (rel_propertyName relation))"
  let ?ca = "generateChildHash ext al (rel_propertyName r) 10"
  let ?j = "LeftJoinAndSelect (columnSelection (this_formatter this) al (rel_propertyName r)) ?ca"
  from assms(4,5) have "r \<in> set (filter ?ign (relations meta))" by simp
  then obtain pre post where split: "filter ?ign (relations meta) = pre @ r # post"
    by (auto dest: split_list)
  from assms(1,2,3,7) obtain q0 where
    run: "selectRelations this ext q0 ch (relations meta) al meta connection depth = Inr qb'"
    by (auto simp: createQuery_children split: sum.splits)
  then have "selectRelations_forEach this ext q0 ch (pre @ r # post) al meta connection depth = Inr qb'"
    by (simp add: selectRelations.simps split)
  then obtain q1 where
    q1: "selectRelations_forEach this ext q0 ch pre al meta connection depth = Inr q1"
    and step: "selectRelations_forEach this ext q1 ch (r # post) al meta connection depth = Inr qb'"
    by (auto simp: selectRelations_forEach_append simp del: selectRelations_forEach.simps
             split: sum.splits)
  from step assms(6) obtain b where
    b: "createQuery this ext (rel_inverseTarget r) (children_get ch (rel_propertyName r)) connection
          (q1 @ [?j]) ?ca (NumberContext (depth + 1)) 0 = Inr b"
    and post: "selectRelations_forEach this ext b ch post al meta connection depth = Inr qb'"
    by (auto simp: Let_def split: sum.splits)
  from b obtain nested where
    nested: "createQuery this ext (rel_inverseTarget r) (children_get ch (rel_propertyName r)) connection
          [] ?ca (NumberContext (depth + 1)) 0 = Inr nested"
    and bn: "b = (q1 @ [?j]) @ nested"
    by (subst (asm) createQuery_frame[where c' = "NumberContext (depth + 1)"])
       (cases "createQuery this ext (rel_inverseTarget r) (children_get ch (rel_propertyName r))
                 connection [] ?ca (NumberContext (depth + 1)) 0"; auto)
  from selectRelations_forEach_extends[OF post] obtain after where "qb' = b @ after" by blast
  with bn have shape: "qb' = q1 @ ?j # nested @ after" by simp
  have none: "nested = []"
    if "\<forall>s. children_get ch (rel_propertyName r) = Some s \<longrightarrow> children s = None"
    using nested
  proof (cases rule: createQuery_Inr_cases)
    case unchanged
    then show ?thesis by simp
  next
    case (selected meta' sel' ch')
    with that show ?thesis by simp
  qed
  show ?thesis
    using shape nested none by blast
qed

theorem required_relation_joined_and_resolved_witness:
  "library ''Book'' = Some book_meta \<and>
   enat 0 < this_maxDepth (resolver None None) \<and>
   relation ''publisher'' ''Publisher'' \<in> set (relations book_meta) \<and>
   \<not> truthy_ignored (map_of (getLoaderIgnoredFields publisher_required (target book_meta)) ''publisher'') \<and>
   truthy_required (map_of (getLoaderRequiredFields publisher_required (target book_meta)) ''publisher'') \<and>
   createQuery (resolver None None) publisher_required ''Book''
      (Some (Selection None (Some [(''title'', leaf)]))) library [] ''b'' (Context ()) 0 =
     Inr [AddSelect ''b.id'' (Some ''b_id''), AddSelect ''b.title'' (Some ''b_title''),
          LeftJoinAndSelect ''b.publisher'' ''eaeaeaeaea''] \<and>
   (\<exists>before nested after.
      [AddSelect ''b.id'' (Some ''b_id''), AddSelect ''b.title'' (Some ''b_title''),
       LeftJoinAndSelect ''b.publisher'' ''eaeaeaeaea''] =
        before @ LeftJoinAndSelect ''b.publisher'' ''eaeaeaeaea'' # nested @ after \<and>
      nested = [])"
proof -
  let ?r = "relation ''publisher'' ''Publisher''"
  have m: "library ''Book'' = Some book_meta"
    by (simp add: library_def)
  have c: "children (Selection None (Some [(''title'', leaf)])) = Some [(''title'', leaf)]"
    by simp
  have d: "enat 0 < this_maxDepth (resolver None None)"
    by (simp add: resolver_def new_GraphQLQueryResolver_def)
  have i: "?r \<in> set (relations book_meta)"
    by (simp add: book_meta_def)
  have g: "\<not> truthy_ignored (map_of (getLoaderIgnoredFields publisher_required (target book_meta))
             (rel_propertyName ?r))"
    by code_simp
  have q: "truthy_required (map_of (getLoaderRequiredFields publisher_required (target book_meta))
             (rel_propertyName ?r))"
    by code_simp
  have r: "createQuery (resolver None None) publisher_required ''Book''
      (Some (Selection None (Some [(''title'', leaf)]))) library [] ''b'' (Context ()) 0 =
     Inr [AddSelect ''b.id'' (Some ''b_id''), AddSelect ''b.title'' (Some ''b_title''),
          LeftJoinAndSelect ''b.publisher'' ''eaeaeaeaea'']"
    by code_simp
  have n: "rel_propertyName ?r = ''publisher''"
    by (simp add: relation_def)
  have cs: "columnSelection (this_formatter (resolver None None)) ''b'' ''publisher'' = ''b.publisher''"
    by (simp add: resolver_def new_GraphQLQueryResolver_def dot_formatter_def)
  have h: "generateChildHash publisher_required ''b'' ''publisher'' 10 = ''eaeaeaeaea''"
    by code_simp
  have a: "\<forall>s. children_get [(''title'', leaf)] ''publisher'' = Some s \<longrightarrow> children s = None"
    by (simp add: children_get_def hash_lookup_def object_prototype_names_def)
  from required_relation_joined_and_resolved[where connection = library and meta = book_meta,
         OF m c d i g q r]
  obtain before nested after where
    "[AddSelect ''b.id'' (Some ''b_id''), AddSelect ''b.title'' (Some ''b_title''),
       LeftJoinAndSelect ''b.publisher'' ''eaeaeaeaea''] =
        before @ LeftJoinAndSelect ''b.publisher'' ''eaeaeaeaea'' # nested @ after"
    "nested = []"
    unfolding n cs h using a by blast
  then show ?thesis
    using m d i g q r unfolding n by blast
qed

text \<open>
  C3 as stated fails when the client selects the required relation with children. With
  \<open>Book.publisher\<close> required and the selection \<open>{publisher {name, books {title}}}\<close>, the
  join by \<open>leftJoinAndSelect\<close> is followed by the projections of \<open>Publisher.id\<close> and
  \<open>Publisher.name\<close> under the child alias and by the join of \<open>books\<close> below it.
\<close>

theorem required_relation_recursion_counterexample:
  "truthy_required (map_of (getLoaderRequiredFields publisher_required ''Book'') ''publisher'') \<and>
   \<not> truthy_ignored (map_of (getLoaderIgnoredFields publisher_required ''Book'') ''publisher'') \<and>
   createQuery (resolver None None) publisher_required ''Book''
      (Some (Selection None
         (Some [(''publisher'', Selection (Some [])
                   (Some [(''name'', leaf),
                          (''books'', Selection (Some []) (Some [(''title'', leaf)]))]))])))
      library [] ''b'' (Context ()) 0 =
     Inr [AddSelect ''b.id'' (Some ''b_id''),
          LeftJoinAndSelect ''b.publisher'' ''eaeaeaeaea'',
          AddSelect ''eaeaeaeaea.id'' (Some ''eaeaeaeaea_id''),
          AddSelect ''eaeaeaeaea.name'' (Some ''eaeaeaeaea_name''),
          LeftJoin ''eaeaeaeaea.books'' ''afafafafaf'',
          AddSelect ''afafafafaf.id'' (Some ''afafafafaf_id''),
          AddSelect ''afafafafaf.title'' (Some ''afafafafaf_title''),
          LeftJoinAndSelect ''afafafafaf.publisher'' ''f8f8f8f8f8'']"
  by code_simp

section \<open>Required-field predicates\<close>

text \<open>
  C7 fails on the code. \<open>createQuery\<close> and \<open>_selectRelations\<close> test
  \<open>requiredFields.get(name)\<close> for truthiness and never call it; a predicate is a function
  object, hence truthy. The pass that evaluates the predicate with the context and the
  requested child names, \<open>_selectRequiredFields\<close>, is not called. For \<open>Book.isbn\<close> with a
  predicate that returns \<open>false\<close>, that pass finds the column not required, while
  \<open>createQuery\<close> projects it.
\<close>

theorem createQuery_predicate_not_evaluated:
  "isRequired_entry (RequiredPredicate (\<lambda>context requested. False) :: unit required_value)
      (Context ()) [(''title'', leaf)] = False \<and>
   selectRequiredFields (resolver None None) isbn_predicate [] [(''title'', leaf)] ''b'' book_meta
      (Context ()) = [] \<and>
   createQuery (resolver None None) isbn_predicate ''Book''
      (Some (Selection None (Some [(''title'', leaf)]))) library [] ''b'' (Context ()) 0 =
     Inr [AddSelect ''b.id'' (Some ''b_id''), AddSelect ''b.title'' (Some ''b_title''),
          AddSelect ''b.isbn'' (Some ''b_isbn'')]"
  by code_simp

section \<open>Merging repeated fields\<close>

lemma complete_iff:
  "complete s \<longleftrightarrow> (\<exists>ch. children s = Some ch \<and> complete_hash ch)"
  by (cases s) (auto simp: complete_hash_def list_all_iff split: option.splits)

lemma complete_hash_Nil [simp]: "complete_hash []"
  by (simp add: complete_hash_def)

lemma complete_hash_update:
  "complete_hash h \<Longrightarrow> complete v \<Longrightarrow> complete_hash (AList.update k v h)"
  by (induction h) (auto simp: complete_hash_def)

lemma complete_hash_lookup:
  "complete_hash h \<Longrightarrow> map_of h k = Some s \<Longrightarrow> complete s"
  by (force simp: complete_hash_def list_all_iff dest: map_of_SomeD)

lemma getSelections_field:
  "getSelections (Some (SelectionAST (FieldNode name args s))) = selection_set s"
  by (cases s) (simp_all add: selection_set_def)

lemma getSelections_inline:
  "getSelections (Some (SelectionAST (InlineFragment s))) = selection_set s"
  by (cases s) (simp_all add: selection_set_def)

lemma reduce_field:
  "flattenAST_reduce (Suc fuel) pf info (FieldNode name args selectionSet # rest) X =
     (case mergeField fuel pf info name args selectionSet (hash_lookup X name) of
        None \<Rightarrow> None
      | Some (Inl e) \<Rightarrow> Some (Inl e)
      | Some (Inr v) \<Rightarrow> flattenAST_reduce (Suc fuel) pf info rest (AList.update name v X))"
  by (simp add: mergeField_def split: option.splits sum.splits property.splits)

lemma reduce_fragment:
  "isFragment n \<Longrightarrow>
   flattenAST_reduce (Suc fuel) pf info (n # rest) X =
     (case flattenAST_reduce fuel pf info (getSelections (getAST n info)) X of
        None \<Rightarrow> None
      | Some (Inl e) \<Rightarrow> Some (Inl e)
      | Some (Inr X1) \<Rightarrow> flattenAST_reduce (Suc fuel) pf info rest X1)"
  by (cases n) simp_all

lemma well_formed_fragment:
  "isFragment n \<Longrightarrow> well_formed (Suc fuel) pf info (n # rest) \<Longrightarrow>
   well_formed fuel pf info (getSelections (getAST n info)) \<and> well_formed (Suc fuel) pf info rest"
proof (cases n)
  case (FieldNode name args s)
  assume "isFragment n" with FieldNode show ?thesis by simp
next
  case (InlineFragment s)
  assume "well_formed (Suc fuel) pf info (n # rest)"
  with InlineFragment show ?thesis by (simp add: getSelections_inline)
next
  case (FragmentSpread f)
  assume wf: "well_formed (Suc fuel) pf info (n # rest)"
  show ?thesis
  proof (cases "map_of (fragments info) f")
    case None
    with wf FragmentSpread show ?thesis by (simp add: hash_get_def)
  next
    case (Some ast)
    with wf FragmentSpread show ?thesis
      by (cases ast; cases "case ast of FragmentDefinition s \<Rightarrow> s | _ \<Rightarrow> None")
         (auto simp: hash_get_def selection_set_def)
  qed
qed

lemma reduce_total:
  "well_formed fuel pf info sels \<Longrightarrow> complete_hash X \<Longrightarrow>
   \<exists>X'. flattenAST_reduce fuel pf info sels X = Some (Inr X') \<and> complete_hash X'"
proof (induction fuel arbitrary: sels X)
  case 0
  then show ?case by (cases sels) simp_all
next
  case (Suc fuel)
  from Suc.prems show ?case
  proof (induction sels arbitrary: X)
    case Nil
    then show ?case by simp
  next
    case (Cons n rest)
    show ?case
    proof (cases "isFragment n")
      case True
      from well_formed_fragment[OF True Cons.prems(1)]
      have wf1: "well_formed fuel pf info (getSelections (getAST n info))"
        and wf2: "well_formed (Suc fuel) pf info rest" by simp_all
      from Suc.IH[OF wf1 Cons.prems(2)] obtain X1 where
        X1: "flattenAST_reduce fuel pf info (getSelections (getAST n info)) X = Some (Inr X1)"
        and c1: "complete_hash X1" by blast
      from Cons.IH[OF wf2 c1] show ?thesis
        by (simp only: reduce_fragment[OF True] X1 option.case sum.case)
    next
      case False
      then obtain name args s where n: "n = FieldNode name args s"
        by (cases n) simp_all
      from Cons.prems(1) obtain decoded where
        np: "name \<notin> set object_prototype_names"
        and d: "decodeArguments pf args = Inr decoded"
        and wf1: "well_formed fuel pf info (selection_set s)"
        and wf2: "well_formed (Suc fuel) pf info rest"
        unfolding n by (auto split: sum.splits)
      have "\<exists>v. mergeField fuel pf info name args s (hash_lookup X name) = Some (Inr v) \<and> complete v"
      proof (cases "map_of X name")
        case None
        from Suc.IH[OF wf1, of "[]"] obtain ch where
          "flattenAST_reduce fuel pf info (selection_set s) [] = Some (Inr ch)" "complete_hash ch"
          by auto
        then show ?thesis
          using None np d
          by (simp add: mergeField_def hash_lookup_def getSelections_field complete_iff)
      next
        case (Some existing)
        from complete_hash_lookup[OF Cons.prems(2) Some] obtain ch where
          ch: "children existing = Some ch" "complete_hash ch"
          by (auto simp: complete_iff)
        from Suc.IH[OF wf1 ch(2)] obtain ch' where
          "flattenAST_reduce fuel pf info (selection_set s) ch = Some (Inr ch')" "complete_hash ch'"
          by auto
        then show ?thesis
          using Some ch
          by (simp add: mergeField_def hash_lookup_def getSelections_field complete_iff)
      qed
      then obtain v where
        v: "mergeField fuel pf info name args s (hash_lookup X name) = Some (Inr v)"
        and cv: "complete v" by blast
      from Cons.IH[OF wf2 complete_hash_update[OF Cons.prems(2) cv]] show ?thesis
        unfolding n by (simp only: reduce_field v option.case sum.case)
    qed
  qed
qed

lemma mergeField_Own:
  "mergeField fuel pf info name args s (Own x) = Some (Inr v) \<Longrightarrow>
   \<exists>c c'. children x = Some c \<and>
          flattenAST_reduce fuel pf info (selection_set s) c = Some (Inr c') \<and>
          v = Selection (arguments x) (Some c')"
  by (auto simp: mergeField_def getSelections_field split: option.splits sum.splits)

lemma mergeField_new:
  "map_of X name = None \<Longrightarrow>
   mergeField fuel pf info name args s (hash_lookup X name) = Some (Inr v) \<Longrightarrow>
   \<exists>d c'. decodeArguments pf args = Inr d \<and>
          flattenAST_reduce fuel pf info (selection_set s) [] = Some (Inr c') \<and>
          v = Selection (Some d) (Some c')"
  by (auto simp: mergeField_def hash_lookup_def getSelections_field
           split: option.splits sum.splits if_splits)

lemma merged_start: "merged A A []"
  by (simp add: merged_def map_of_eq_None_iff)

lemma merged_update:
  assumes "merged A X Y" and "name \<notin> fst ` set A \<Longrightarrow> vx = vy"
  shows "merged A (AList.update name vx X) (AList.update name vy Y)"
  using assms unfolding merged_def
  by (auto simp: AList.dom_update AList.update_conv')

lemma reduce_merged:
  "merged A X Y \<Longrightarrow>
   flattenAST_reduce fuel pf info sels X = Some (Inr X') \<Longrightarrow>
   flattenAST_reduce fuel pf info sels Y = Some (Inr Y') \<Longrightarrow> merged A X' Y'"
proof (induction fuel arbitrary: sels X Y X' Y')
  case 0
  then show ?case by (cases sels) simp_all
next
  case (Suc fuel)
  from Suc.prems show ?case
  proof (induction sels arbitrary: X Y)
    case Nil
    then show ?case by simp
  next
    case (Cons n rest)
    show ?case
    proof (cases "isFragment n")
      case True
      from Cons.prems(2)[unfolded reduce_fragment[OF True]] obtain X1 where
        X1: "flattenAST_reduce fuel pf info (getSelections (getAST n info)) X = Some (Inr X1)"
        and X': "flattenAST_reduce (Suc fuel) pf info rest X1 = Some (Inr X')"
        by (auto split: option.splits sum.splits)
      from Cons.prems(3)[unfolded reduce_fragment[OF True]] obtain Y1 where
        Y1: "flattenAST_reduce fuel pf info (getSelections (getAST n info)) Y = Some (Inr Y1)"
        and Y': "flattenAST_reduce (Suc fuel) pf info rest Y1 = Some (Inr Y')"
        by (auto split: option.splits sum.splits)
      have "merged A X1 Y1"
        by (rule Suc.IH[OF Cons.prems(1) X1 Y1])
      then show ?thesis
        by (rule Cons.IH[OF _ X' Y'])
    next
      case False
      then obtain name args s where n: "n = FieldNode name args s"
        by (cases n) simp_all
      from Cons.prems(2)[unfolded n reduce_field] obtain vx where
        vx: "mergeField fuel pf info name args s (hash_lookup X name) = Some (Inr vx)"
        and X': "flattenAST_reduce (Suc fuel) pf info rest (AList.update name vx X) = Some (Inr X')"
        by (auto split: option.splits sum.splits)
      from Cons.prems(3)[unfolded n reduce_field] obtain vy where
        vy: "mergeField fuel pf info name args s (hash_lookup Y name) = Some (Inr vy)"
        and Y': "flattenAST_reduce (Suc fuel) pf info rest (AList.update name vy Y) = Some (Inr Y')"
        by (auto split: option.splits sum.splits)
      have "vx = vy" if "name \<notin> fst ` set A"
      proof -
        from that Cons.prems(1) have "hash_lookup X name = hash_lookup Y name"
          by (simp add: merged_def hash_lookup_def)
        with vx vy show ?thesis by simp
      qed
      with Cons.prems(1) have "merged A (AList.update name vx X) (AList.update name vy Y)"
        by (rule merged_update)
      then show ?thesis
        by (rule Cons.IH[OF _ X' Y'])
    qed
  qed
qed

lemma merged_nodes_field:
  assumes m: "merged A X Y" and mn: "merged_nodes A X Y"
    and vx: "mergeField fuel pf info name args s (hash_lookup X name) = Some (Inr vx)"
    and vy: "mergeField fuel pf info name args s (hash_lookup Y name) = Some (Inr vy)"
  shows "merged_nodes A (AList.update name vx X) (AList.update name vy Y)"
  unfolding merged_nodes_def
proof (intro allI impI, elim conjE)
  fix k a y
  assume a: "map_of A k = Some a" and y: "map_of (AList.update name vy Y) k = Some y"
  show "\<exists>ca cx cy. children a = Some ca \<and> children y = Some cy \<and>
          map_of (AList.update name vx X) k = Some (Selection (arguments a) (Some cx)) \<and>
          merged ca cx cy"
  proof (cases "k = name")
    case False
    with a y mn show ?thesis
      by (simp add: merged_nodes_def AList.update_conv')
  next
    case True
    from y True have yv: "y = vy" by (simp add: AList.update_conv')
    show ?thesis
    proof (cases "map_of Y name")
      case (Some y0)
      with a True mn obtain ca cx cy where
        ca: "children a = Some ca" and cy: "children y0 = Some cy"
        and x: "map_of X name = Some (Selection (arguments a) (Some cx))"
        and mc: "merged ca cx cy"
        unfolding merged_nodes_def by blast
      from vx x obtain cx' where
        cx': "flattenAST_reduce fuel pf info (selection_set s) cx = Some (Inr cx')"
        and vx': "vx = Selection (arguments a) (Some cx')"
        by (auto simp: hash_lookup_def dest!: mergeField_Own)
      from vy Some cy obtain cy' where
        cy': "flattenAST_reduce fuel pf info (selection_set s) cy = Some (Inr cy')"
        and vy': "vy = Selection (arguments y0) (Some cy')"
        by (auto simp: hash_lookup_def dest!: mergeField_Own)
      from reduce_merged[OF mc cx' cy'] have "merged ca cx' cy'" .
      with ca vx' vy' yv True show ?thesis
        by (simp add: AList.update_conv')
    next
      case None
      then have "name \<notin> fst ` set Y" by (simp add: map_of_eq_None_iff)
      with m a True have x: "map_of X name = Some a"
        by (simp add: merged_def)
      from vx x obtain ca cx' where
        ca: "children a = Some ca"
        and cx': "flattenAST_reduce fuel pf info (selection_set s) ca = Some (Inr cx')"
        and vx': "vx = Selection (arguments a) (Some cx')"
        by (auto simp: hash_lookup_def dest!: mergeField_Own)
      from mergeField_new[OF None vy] obtain d cy' where
        cy': "flattenAST_reduce fuel pf info (selection_set s) [] = Some (Inr cy')"
        and vy': "vy = Selection (Some d) (Some cy')"
        by blast
      from reduce_merged[OF merged_start cx' cy'] have "merged ca cx' cy'" .
      with ca vx' vy' yv True show ?thesis
        by (simp add: AList.update_conv')
    qed
  qed
qed

lemma reduce_merged_nodes:
  "merged A X Y \<Longrightarrow> merged_nodes A X Y \<Longrightarrow>
   flattenAST_reduce fuel pf info sels X = Some (Inr X') \<Longrightarrow>
   flattenAST_reduce fuel pf info sels Y = Some (Inr Y') \<Longrightarrow> merged_nodes A X' Y'"
proof (induction fuel arbitrary: sels X Y X' Y')
  case 0
  then show ?case by (cases sels) simp_all
next
  case (Suc fuel)
  from Suc.prems show ?case
  proof (induction sels arbitrary: X Y)
    case Nil
    then show ?case by simp
  next
    case (Cons n rest)
    show ?case
    proof (cases "isFragment n")
      case True
      from Cons.prems(3)[unfolded reduce_fragment[OF True]] obtain X1 where
        X1: "flattenAST_reduce fuel pf info (getSelections (getAST n info)) X = Some (Inr X1)"
        and X': "flattenAST_reduce (Suc fuel) pf info rest X1 = Some (Inr X')"
        by (auto split: option.splits sum.splits)
      from Cons.prems(4)[unfolded reduce_fragment[OF True]] obtain Y1 where
        Y1: "flattenAST_reduce fuel pf info (getSelections (getAST n info)) Y = Some (Inr Y1)"
        and Y': "flattenAST_reduce (Suc fuel) pf info rest Y1 = Some (Inr Y')"
        by (auto split: option.splits sum.splits)
      have m1: "merged A X1 Y1"
        by (rule reduce_merged[OF Cons.prems(1) X1 Y1])
      have "merged_nodes A X1 Y1"
        by (rule Suc.IH[OF Cons.prems(1,2) X1 Y1])
      with m1 show ?thesis
        by (rule Cons.IH[OF _ _ X' Y'])
    next
      case False
      then obtain name args s where n: "n = FieldNode name args s"
        by (cases n) simp_all
      from Cons.prems(3)[unfolded n reduce_field] obtain vx where
        vx: "mergeField fuel pf info name args s (hash_lookup X name) = Some (Inr vx)"
        and X': "flattenAST_reduce (Suc fuel) pf info rest (AList.update name vx X) = Some (Inr X')"
        by (auto split: option.splits sum.splits)
      from Cons.prems(4)[unfolded n reduce_field] obtain vy where
        vy: "mergeField fuel pf info name args s (hash_lookup Y name) = Some (Inr vy)"
        and Y': "flattenAST_reduce (Suc fuel) pf info rest (AList.update name vy Y) = Some (Inr Y')"
        by (auto split: option.splits sum.splits)
      have "vx = vy" if "name \<notin> fst ` set A"
      proof -
        from that Cons.prems(1) have "hash_lookup X name = hash_lookup Y name"
          by (simp add: merged_def hash_lookup_def)
        with vx vy show ?thesis by simp
      qed
      with Cons.prems(1) have m1: "merged A (AList.update name vx X) (AList.update name vy Y)"
        by (rule merged_update)
      have "merged_nodes A (AList.update name vx X) (AList.update name vy Y)"
        by (rule merged_nodes_field[OF Cons.prems(1,2) vx vy])
      with m1 show ?thesis
        by (rule Cons.IH[OF _ _ X' Y'])
    qed
  qed
qed

lemma reduce_keeps_arguments:
  "flattenAST_reduce fuel pf info sels X = Some (Inr X') \<Longrightarrow> map_of X k = Some s \<Longrightarrow>
   \<exists>s'. map_of X' k = Some s' \<and> arguments s' = arguments s"
proof (induction fuel arbitrary: sels X X' s)
  case 0
  then show ?case by (cases sels) simp_all
next
  case (Suc fuel)
  from Suc.prems show ?case
  proof (induction sels arbitrary: X s)
    case Nil
    then show ?case by simp
  next
    case (Cons n rest)
    show ?case
    proof (cases "isFragment n")
      case True
      from Cons.prems(1)[unfolded reduce_fragment[OF True]] obtain X1 where
        X1: "flattenAST_reduce fuel pf info (getSelections (getAST n info)) X = Some (Inr X1)"
        and X': "flattenAST_reduce (Suc fuel) pf info rest X1 = Some (Inr X')"
        by (auto split: option.splits sum.splits)
      from Suc.IH[OF X1 Cons.prems(2)] obtain s1 where
        "map_of X1 k = Some s1" "arguments s1 = arguments s" by blast
      with Cons.IH[OF X'] show ?thesis by metis
    next
      case False
      then obtain name args sel where n: "n = FieldNode name args sel"
        by (cases n) simp_all
      from Cons.prems(1)[unfolded n reduce_field] obtain vx where
        vx: "mergeField fuel pf info name args sel (hash_lookup X name) = Some (Inr vx)"
        and X': "flattenAST_reduce (Suc fuel) pf info rest (AList.update name vx X) = Some (Inr X')"
        by (auto split: option.splits sum.splits)
      have "\<exists>s1. map_of (AList.update name vx X) k = Some s1 \<and> arguments s1 = arguments s"
      proof (cases "k = name")
        case True
        with vx Cons.prems(2) have "arguments vx = arguments s"
          by (auto simp: hash_lookup_def dest!: mergeField_Own)
        with True show ?thesis by (simp add: AList.update_conv')
      next
        case False
        with Cons.prems(2) show ?thesis by (simp add: AList.update_conv')
      qed
      then obtain s1 where "map_of (AList.update name vx X) k = Some s1" "arguments s1 = arguments s"
        by blast
      with Cons.IH[OF X'] show ?thesis by metis
    qed
  qed
qed

lemma reduce_distinct:
  "flattenAST_reduce fuel pf info sels X = Some (Inr X') \<Longrightarrow> distinct (map fst X) \<Longrightarrow>
   distinct (map fst X')"
proof (induction fuel arbitrary: sels X X')
  case 0
  then show ?case by (cases sels) simp_all
next
  case (Suc fuel)
  from Suc.prems show ?case
  proof (induction sels arbitrary: X)
    case Nil
    then show ?case by simp
  next
    case (Cons n rest)
    show ?case
    proof (cases "isFragment n")
      case True
      from Cons.prems(1)[unfolded reduce_fragment[OF True]] obtain X1 where
        X1: "flattenAST_reduce fuel pf info (getSelections (getAST n info)) X = Some (Inr X1)"
        and X': "flattenAST_reduce (Suc fuel) pf info rest X1 = Some (Inr X')"
        by (auto split: option.splits sum.splits)
      from Suc.IH[OF X1 Cons.prems(2)] Cons.IH[OF X'] show ?thesis by blast
    next
      case False
      then obtain name args sel where n: "n = FieldNode name args sel"
        by (cases n) simp_all
      from Cons.prems(1)[unfolded n reduce_field] obtain vx where
        X': "flattenAST_reduce (Suc fuel) pf info rest (AList.update name vx X) = Some (Inr X')"
        by (auto split: option.splits sum.splits)
      from Cons.prems(2) have "distinct (map fst (AList.update name vx X))"
        by (rule AList.distinct_update)
      with Cons.IH[OF X'] show ?thesis by blast
    qed
  qed
qed

lemma reduce_append:
  "flattenAST_reduce fuel pf info (xs @ ys) X =
     (case flattenAST_reduce fuel pf info xs X of
        None \<Rightarrow> None
      | Some (Inl e) \<Rightarrow> Some (Inl e)
      | Some (Inr X1) \<Rightarrow> flattenAST_reduce fuel pf info ys X1)"
proof (cases fuel)
  case 0
  then show ?thesis by (cases xs) simp_all
next
  case (Suc f)
  show ?thesis
    unfolding Suc
  proof (induction xs arbitrary: X)
    case Nil
    then show ?case by simp
  next
    case (Cons n rest)
    show ?case
    proof (cases "isFragment n")
      case True
      show ?thesis
        by (simp only: append_Cons reduce_fragment[OF True] Cons.IH)
           (simp split: option.splits sum.splits)
    next
      case False
      then obtain name args sel where n: "n = FieldNode name args sel"
        by (cases n) simp_all
      show ?thesis
        unfolding n
        by (simp only: append_Cons reduce_field Cons.IH)
           (simp split: option.splits sum.splits)
    qed
  qed
qed

lemma well_formed_append:
  "well_formed fuel pf info (xs @ ys) \<longleftrightarrow> well_formed fuel pf info xs \<and> well_formed fuel pf info ys"
proof (cases fuel)
  case 0
  then show ?thesis by (cases xs; cases ys) simp_all
next
  case (Suc f)
  show ?thesis
    unfolding Suc
  proof (induction xs)
    case Nil
    then show ?case by simp
  next
    case (Cons n rest)
    then show ?case by (cases n) auto
  qed
qed

lemma mergeField_mono:
  assumes IH: "\<And>sels X r. flattenAST_reduce fuel pf info sels X = Some r \<Longrightarrow>
                 flattenAST_reduce (fuel + k) pf info sels X = Some r"
    and "mergeField fuel pf info name args s found = Some y"
  shows "mergeField (fuel + k) pf info name args s found = Some y"
proof -
  have fl: "flattenAST (fuel + k) pf info ast X = Some r"
    if "flattenAST fuel pf info ast X = Some r" for ast X r
    using that IH by simp
  show ?thesis
    using assms(2)
    by (auto simp: mergeField_def fl simp del: flattenAST.simps
             split: option.splits sum.splits property.splits dest: fl)
qed

lemma flattenAST_reduce_mono:
  "flattenAST_reduce fuel pf info sels X = Some r \<Longrightarrow>
   flattenAST_reduce (fuel + k) pf info sels X = Some r"
proof (induction fuel arbitrary: sels X r)
  case 0
  then show ?case by (cases sels) simp_all
next
  case (Suc fuel)
  from Suc.prems show ?case
  proof (induction sels arbitrary: X)
    case Nil
    then show ?case by simp
  next
    case (Cons n rest)
    have S: "Suc fuel + k = Suc (fuel + k)" by simp
    show ?case
    proof (cases "isFragment n")
      case True
      from Cons.prems[unfolded reduce_fragment[OF True]] obtain y where
        y: "flattenAST_reduce fuel pf info (getSelections (getAST n info)) X = Some y"
        by (auto split: option.splits)
      note y' = Suc.IH[OF y]
      show ?thesis
      proof (cases y)
        case (Inl e)
        with Cons.prems[unfolded reduce_fragment[OF True]] y have "r = Inl e" by simp
        with y' Inl show ?thesis
          unfolding S reduce_fragment[OF True] by simp
      next
        case (Inr X1)
        with Cons.prems[unfolded reduce_fragment[OF True]] y
        have "flattenAST_reduce (Suc fuel) pf info rest X1 = Some r" by simp
        from Cons.IH[OF this] y' Inr show ?thesis
          unfolding S reduce_fragment[OF True] by simp
      qed
    next
      case False
      then obtain name args s where n: "n = FieldNode name args s"
        by (cases n) simp_all
      from Cons.prems[unfolded n reduce_field] obtain y where
        y: "mergeField fuel pf info name args s (hash_lookup X name) = Some y"
        by (auto split: option.splits)
      have y': "mergeField (fuel + k) pf info name args s (hash_lookup X name) = Some y"
        using Suc.IH y by (rule mergeField_mono)
      show ?thesis
      proof (cases y)
        case (Inl e)
        with Cons.prems[unfolded n reduce_field] y have "r = Inl e" by simp
        with y' Inl show ?thesis
          unfolding S n reduce_field by simp
      next
        case (Inr v)
        with Cons.prems[unfolded n reduce_field] y
        have "flattenAST_reduce (Suc fuel) pf info rest (AList.update name v X) = Some r" by simp
        from Cons.IH[OF this] y' Inr show ?thesis
          unfolding S n reduce_field by simp
      qed
    qed
  qed
qed

lemma reduce_inlines_fragment:
  assumes "isFragment n" and "well_formed (Suc f) pf info (n # rest)" and "complete_hash X"
  shows "flattenAST_reduce (Suc f) pf info (n # rest) X =
         flattenAST_reduce (Suc f) pf info (getSelections (getAST n info) @ rest) X"
proof -
  from well_formed_fragment[OF assms(1,2)]
  have "well_formed f pf info (getSelections (getAST n info))" by simp
  from reduce_total[OF this assms(3)] obtain X1 where
    X1: "flattenAST_reduce f pf info (getSelections (getAST n info)) X = Some (Inr X1)" by blast
  from flattenAST_reduce_mono[OF X1, of 1]
  have "flattenAST_reduce (Suc f) pf info (getSelections (getAST n info)) X = Some (Inr X1)" by simp
  then show ?thesis
    by (simp only: reduce_fragment[OF assms(1)] reduce_append X1 option.case sum.case)
qed

lemma getSelections_selections_of:
  "getSelections (Some (SelectionAST ast)) = selections_of ast"
  by (cases ast) (simp_all add: getSelections_field getSelections_inline)

lemma graphqlFields_reduce_concat:
  "graphqlFields_reduce fuel pf info asts X =
     flattenAST_reduce fuel pf info (concat (map selections_of asts)) X"
proof (induction asts arbitrary: X)
  case Nil
  then show ?case by simp
next
  case (Cons ast rest)
  show ?case
    by (simp only: graphqlFields_reduce.simps flattenAST.simps getSelections_selections_of
                   list.map concat.simps reduce_append)
       (simp add: Cons.IH split: option.splits sum.splits)
qed

text \<open>
  Selections of one level, given in two parts: the later part \<open>second\<close> is flattened
  into what the earlier part \<open>first\<close> left. For a request within the bound the run
  returns a dictionary with one node for each name. Its names are those of \<open>first\<close> and
  those \<open>second\<close> yields by itself; a name that only one part selects has the node of
  that part, and a name that both select keeps the arguments it has from \<open>first\<close> and
  has as children the children of both occurrences: every name of either, with the node
  of the one side when the other side lacks the name.
\<close>

lemma flattenAST_reduce_merges:
  assumes wf: "well_formed fuel parseFloat info (first @ second)"
    and c: "complete_hash flattened" and d: "distinct (map fst flattened)"
  shows "\<exists>r1 res r2.
      flattenAST_reduce fuel parseFloat info first flattened = Some (Inr r1) \<and>
      flattenAST_reduce fuel parseFloat info second [] = Some (Inr r2) \<and>
      flattenAST_reduce fuel parseFloat info (first @ second) flattened = Some (Inr res) \<and>
      distinct (map fst res) \<and>
      set (map fst res) = set (map fst r1) \<union> set (map fst r2) \<and>
      (\<forall>name. hash_get r2 name = None \<longrightarrow> hash_get res name = hash_get r1 name) \<and>
      (\<forall>name. hash_get r1 name = None \<longrightarrow> hash_get res name = hash_get r2 name) \<and>
      (\<forall>name n1 n2. hash_get r1 name = Some n1 \<and> hash_get r2 name = Some n2 \<longrightarrow>
         (\<exists>ch1 ch2 ch.
            children n1 = Some ch1 \<and> children n2 = Some ch2 \<and>
            hash_get res name = Some (Selection (arguments n1) (Some ch)) \<and>
            set (map fst ch) = set (map fst ch1) \<union> set (map fst ch2) \<and>
            (\<forall>k. hash_get ch2 k = None \<longrightarrow> hash_get ch k = hash_get ch1 k) \<and>
            (\<forall>k. hash_get ch1 k = None \<longrightarrow> hash_get ch k = hash_get ch2 k)))"
proof -
  from wf have wf1: "well_formed fuel parseFloat info first"
    and wf2: "well_formed fuel parseFloat info second"
    by (simp_all add: well_formed_append)
  from reduce_total[OF wf1 c] obtain r1 where
    r1: "flattenAST_reduce fuel parseFloat info first flattened = Some (Inr r1)"
    and c1: "complete_hash r1" by blast
  from reduce_total[OF wf2 c1] obtain res where
    res: "flattenAST_reduce fuel parseFloat info second r1 = Some (Inr res)" by blast
  from reduce_total[OF wf2 complete_hash_Nil] obtain r2 where
    r2: "flattenAST_reduce fuel parseFloat info second [] = Some (Inr r2)" by blast
  have all: "flattenAST_reduce fuel parseFloat info (first @ second) flattened = Some (Inr res)"
    by (simp only: reduce_append r1 res option.case sum.case)
  have dist: "distinct (map fst res)"
    using reduce_distinct[OF r1 d] reduce_distinct[OF res] by blast
  have m: "merged r1 res r2"
    by (rule reduce_merged[OF merged_start res r2])
  have mn: "merged_nodes r1 res r2"
    by (rule reduce_merged_nodes[OF merged_start _ res r2]) (simp add: merged_nodes_def)
  have N: "hash_get h k = None \<longleftrightarrow> k \<notin> fst ` set h" for h :: "'a Selection Hash" and k
    by (simp add: hash_get_def map_of_eq_None_iff)
  from m have keys: "set (map fst res) = set (map fst r1) \<union> set (map fst r2)"
    and left: "\<forall>name. hash_get r2 name = None \<longrightarrow> hash_get res name = hash_get r1 name"
    and right: "\<forall>name. hash_get r1 name = None \<longrightarrow> hash_get res name = hash_get r2 name"
    by (simp_all add: merged_def N) (simp_all add: hash_get_def)
  have both: "\<exists>ch1 ch2 ch.
            children n1 = Some ch1 \<and> children n2 = Some ch2 \<and>
            hash_get res name = Some (Selection (arguments n1) (Some ch)) \<and>
            set (map fst ch) = set (map fst ch1) \<union> set (map fst ch2) \<and>
            (\<forall>k. hash_get ch2 k = None \<longrightarrow> hash_get ch k = hash_get ch1 k) \<and>
            (\<forall>k. hash_get ch1 k = None \<longrightarrow> hash_get ch k = hash_get ch2 k)"
    if "hash_get r1 name = Some n1 \<and> hash_get r2 name = Some n2" for name n1 n2
  proof -
    from that mn obtain ca cx cy where
      "children n1 = Some ca" "children n2 = Some cy"
      "map_of res name = Some (Selection (arguments n1) (Some cx))" "merged ca cx cy"
      unfolding merged_nodes_def hash_get_def by blast
    then show ?thesis
      by (intro exI[of _ ca] exI[of _ cy] exI[of _ cx])
         (simp add: merged_def N, simp add: hash_get_def)
  qed
  from r1 r2 all dist keys left right both show ?thesis by blast
qed

text \<open>
  C9 fails on the code for a field whose name every object inherits from
  \<open>Object.prototype\<close>. The test \<open>if (flattened[name])\<close> finds the inherited member
  (for \<open>constructor\<close> the function \<open>Object\<close>) in the empty dictionary, takes the merge
  branch at the first occurrence already, reads \<open>flattened[name].children\<close>, which is
  \<open>undefined\<close>, and \<open>Object.assign(undefined, ...)\<close> throws a \<open>TypeError\<close>: no node is
  made. The same request with the field named \<open>team\<close> yields one node \<open>team\<close> with the
  children \<open>name\<close> and \<open>nationality\<close> of both occurrences.
\<close>

theorem flattenAST_inherited_name_throws:
  "graphqlFields 4 (\<lambda>s. s) (results_info ''team'') [] =
     Some (Inr (Selection None
       (Some [(''team'', Selection (Some [])
                (Some [(''name'', scalar), (''nationality'', scalar)]))]))) \<and>
   graphqlFields 4 (\<lambda>s. s) (results_info ''constructor'') [] =
     (Some (Inl TypeError) :: (error + string Selection) option)"
  by code_simp



end
